theory Spec2Isabelle
  imports Main "HOL-Library.Word" "HOL-Library.List_Lexorder"
begin

section \<open>Batch SSML synthesis script (generate.py)\<close>

text \<open>
  The script reads rows (id, SSML) from a CSV file, posts each SSML text to a remote
  text-to-speech service, and writes the decoded audio to the output directory, directly or
  through the external transcoder ffmpeg. Everything outside the script is a field of the
  record \<open>env\<close>: what the csv module parsed, the HTTP service, the base64 decoder, ffmpeg and
  the temporary-file allocator. Everything the script does to the outside is recorded in the
  record \<open>world\<close>: the file contents and the ordered list of requests, subprocess calls and
  printed messages. Directories are not part of the model: the \<open>mkdir\<close> calls that create the
  output directory are left out, and opening or writing a file does not fail.
\<close>

subsection \<open>Data\<close>

type_synonym bytes = "8 word list"

text \<open>
  A Python \<open>str\<close> is the list of its Unicode code points; strings are ordered as Python
  orders them, lexicographically by code point. \<open>ascii\<close> gives the \<open>str\<close> of a literal of the
  program text.
\<close>

type_synonym ustring = "nat list"

definition ascii :: "string \<Rightarrow> ustring" where
  "ascii s = map of_char s"

text \<open>A JSON value as Python's json module represents it; a dict is an association list.\<close>

datatype json =
    JNull
  | JBool bool
  | JNumber int
  | JString ustring
  | JArray "json list"
  | JObject "(ustring \<times> json) list"

text \<open>The output choices of \<open>--format\<close>: argparse admits no other value.\<close>

datatype fmt = Wav | Mp3 | Ogg

fun fmt_name :: "fmt \<Rightarrow> ustring" where
  "fmt_name Wav = ascii ''wav''"
| "fmt_name Mp3 = ascii ''mp3''"
| "fmt_name Ogg = ascii ''ogg''"

text \<open>The namespace returned by \<open>parser.parse_args()\<close>.\<close>

record args =
  api_key :: ustring
  csv :: ustring
  outdir :: ustring
  ids :: "ustring option"
  id_col :: ustring
  ssml_col :: ustring
  voice :: ustring
  lang :: ustring
  format :: fmt
  use_ffmpeg :: bool
  delete_original_wav :: bool

text \<open>
  The exceptions the script raises or lets through. \<open>TTSFailed status err\<close> is
  \<open>RuntimeError(f"TTS failed ({r.status_code}): {err}")\<close>; \<open>MissingIdColumn\<close> and
  \<open>MissingSsmlColumn\<close> are the two \<open>KeyError\<close>s of the header check, with the column asked for
  and the header found; \<open>KeyError k\<close> is a failed dict lookup.
\<close>

datatype error =
    TTSFailed int json
  | CsvEmpty
  | MissingIdColumn ustring "ustring list"
  | MissingSsmlColumn ustring "ustring list"
  | UnsupportedFormat ustring
  | CalledProcessError "ustring list"
  | RequestException
  | JSONDecodeError
  | KeyError ustring
  | TypeError
  | Base64Error

text \<open>The response object of \<open>requests.post\<close>: \<open>json_body\<close> is \<open>None\<close> when \<open>r.json()\<close> raises.\<close>

record response =
  status_code :: int
  json_body :: "json option"
  body_text :: ustring

text \<open>The messages written by \<open>print\<close>, one constructor per call site.\<close>

datatype message =
    CsvNotFound ustring
  | NeedFfmpeg
  | FfmpegNotFound
  | SkippingEmptySsml ustring
  | Wrote ustring
  | WroteNoIntermediate ustring
  | WroteKept ustring ustring
  | IdsNotFound "ustring list"
  | DoneSummary nat nat

datatype event =
    HttpPost ustring json
  | Subprocess "ustring list"
  | Print message
  | PrintErr message

text \<open>A row as \<open>csv.DictReader\<close> yields it: column name to cell, \<open>None\<close> for a cell the line lacks.\<close>

type_synonym row = "(ustring \<times> ustring option) list"

record world =
  files :: "ustring \<rightharpoonup> bytes"
  trace :: "event list"

text \<open>
  The outside of the script. \<open>http_post\<close> gets the events so far, so the service may answer
  the same request differently over time. \<open>ffmpeg cmd fs\<close> is \<open>None\<close> when the process exits
  with a non-zero status and otherwise the bytes it writes to its output file, the last
  argument of \<open>cmd\<close>. \<open>mkstemp fs\<close> is the path of the temporary file created.
\<close>

record env =
  csv_exists :: bool
  csv_fieldnames :: "ustring list option"
  csv_rows :: "row list"
  ffmpeg_version_ok :: bool
  http_post :: "event list \<Rightarrow> ustring \<Rightarrow> json \<Rightarrow> error + response"
  b64decode :: "ustring \<Rightarrow> bytes option"
  ffmpeg :: "ustring list \<Rightarrow> (ustring \<rightharpoonup> bytes) \<Rightarrow> bytes option"
  mkstemp :: "(ustring \<rightharpoonup> bytes) \<Rightarrow> ustring"

definition emit :: "event \<Rightarrow> world \<Rightarrow> world" where
  "emit e w = w\<lparr>trace := trace w @ [e]\<rparr>"

subsection \<open>Python ustring helpers\<close>

text \<open>
  The whitespace of \<open>str.strip()\<close> and \<open>str.split()\<close>: tab, LF, VT, FF, CR, FS, GS, RS, US and
  space, and beyond ASCII the code points U+0085, U+00A0, U+1680, U+2000 to U+200A, U+2028,
  U+2029, U+202F, U+205F and U+3000.
\<close>

definition py_isspace :: "nat \<Rightarrow> bool" where
  "py_isspace c =
     ((0x09 \<le> c \<and> c \<le> 0x0D) \<or> (0x1C \<le> c \<and> c \<le> 0x20) \<or> c = 0x85 \<or> c = 0xA0 \<or>
      c = 0x1680 \<or> (0x2000 \<le> c \<and> c \<le> 0x200A) \<or> c = 0x2028 \<or> c = 0x2029 \<or>
      c = 0x202F \<or> c = 0x205F \<or> c = 0x3000)"

definition py_strip :: "ustring \<Rightarrow> ustring" where
  "py_strip s = rev (dropWhile py_isspace (rev (dropWhile py_isspace s)))"

text \<open>
  \<open>str.split()\<close> with no argument: one left-to-right scan, \<open>cur\<close> the characters of the
  token being read (reversed); runs of whitespace separate tokens and yield no empty token.
\<close>

fun split_scan :: "ustring \<Rightarrow> ustring \<Rightarrow> ustring list" where
  "split_scan cur [] = (if cur = [] then [] else [rev cur])"
| "split_scan cur (c # cs) =
     (if py_isspace c
      then (if cur = [] then split_scan [] cs else rev cur # split_scan [] cs)
      else split_scan (c # cur) cs)"

definition py_split :: "ustring \<Rightarrow> ustring list" where
  "py_split s = split_scan [] s"

text \<open>\<open>s.replace(",", " ")\<close>\<close>

definition replace_commas :: "ustring \<Rightarrow> ustring" where
  "replace_commas s = map (\<lambda>c. if c = of_char CHR '','' then of_char CHR '' '' else c) s"

text \<open>\<open>str(x)\<close> for a cell: \<open>str(None)\<close> is the text None.\<close>

fun py_str :: "ustring option \<Rightarrow> ustring" where
  "py_str None = ascii ''None''"
| "py_str (Some s) = s"

text \<open>\<open>row.get(key, default)\<close>\<close>

definition row_get :: "row \<Rightarrow> ustring \<Rightarrow> ustring option \<Rightarrow> ustring option" where
  "row_get r k d = (case map_of r k of None \<Rightarrow> d | Some v \<Rightarrow> v)"

text \<open>
  Paths as pathlib has them on a POSIX system. A path is a root (empty, one slash, or two
  slashes when the text starts with exactly two) and the list of its components; empty
  components and the component \<open>.\<close> are dropped when a text is parsed, so the leading slashes
  need not be removed before the split. \<open>path_div\<close> is the operator \<open>/\<close>: an absolute right
  operand replaces the left one. \<open>path_str\<close> is \<open>str(path)\<close>, the text handed to \<open>open\<close> and to
  ffmpeg. \<open>joinpath d n\<close> is \<open>str(Path(d) / n)\<close>.
\<close>

definition slash :: nat where
  "slash = of_char CHR ''/''"

text \<open>\<open>s.split(c)\<close> for a one-character separator; \<open>cur\<close> is the current piece, reversed.\<close>

fun split_char :: "nat \<Rightarrow> ustring \<Rightarrow> ustring \<Rightarrow> ustring list" where
  "split_char c cur [] = [rev cur]"
| "split_char c cur (x # xs) =
     (if x = c then rev cur # split_char c [] xs else split_char c (x # cur) xs)"

definition path_root :: "ustring \<Rightarrow> ustring" where
  "path_root p =
     (let n = length (takeWhile (\<lambda>c. c = slash) p)
      in if n = 0 then [] else if n = 2 then [slash, slash] else [slash])"

definition path_parts :: "ustring \<Rightarrow> ustring list" where
  "path_parts p = filter (\<lambda>x. x \<noteq> [] \<and> x \<noteq> ascii ''.'') (split_char slash [] p)"

record path =
  proot :: ustring
  pparts :: "ustring list"

definition Path :: "ustring \<Rightarrow> path" where
  "Path s = \<lparr>proot = path_root s, pparts = path_parts s\<rparr>"

definition path_div :: "path \<Rightarrow> ustring \<Rightarrow> path" where
  "path_div p key =
     (if take 1 key = [slash] then Path key else p\<lparr>pparts := pparts p @ path_parts key\<rparr>)"

fun join_parts :: "ustring list \<Rightarrow> ustring" where
  "join_parts [] = []"
| "join_parts [x] = x"
| "join_parts (x # y # ys) = x @ slash # join_parts (y # ys)"

definition path_str :: "path \<Rightarrow> ustring" where
  "path_str p =
     (if proot p = [] \<and> pparts p = [] then ascii ''.'' else proot p @ join_parts (pparts p))"

definition joinpath :: "ustring \<Rightarrow> ustring \<Rightarrow> ustring" where
  "joinpath d n = path_str (path_div (Path d) n)"

subsection \<open>parse_ids\<close>

definition parse_ids :: "ustring option \<Rightarrow> ustring set option" where
  "parse_ids ids_arg =
     (case ids_arg of
        None \<Rightarrow> None
      | Some a \<Rightarrow>
          if a = [] then None
          else
            let parts = map py_strip (py_split (replace_commas a));
                parts' = filter (\<lambda>p. p \<noteq> []) parts
            in if parts' = [] then None else Some (set parts'))"

subsection \<open>synthesize_ssml_wav\<close>

definition tts_url :: "ustring \<Rightarrow> ustring" where
  "tts_url key = ascii ''https://texttospeech.googleapis.com/v1/text:synthesize?key='' @ key"

definition tts_payload :: "ustring \<Rightarrow> ustring \<Rightarrow> ustring \<Rightarrow> json" where
  "tts_payload voice_name language_code ssml =
     JObject [
       (ascii ''input'', JObject [(ascii ''ssml'', JString ssml)]),
       (ascii ''voice'', JObject [(ascii ''languageCode'', JString language_code), (ascii ''name'', JString voice_name)]),
       (ascii ''audioConfig'', JObject [(ascii ''audioEncoding'', JString (ascii ''LINEAR16''))])]"

text \<open>\<open>j[key]\<close> for a string key: only a dict can be indexed by one.\<close>

fun subscript :: "json \<Rightarrow> ustring \<Rightarrow> error + json" where
  "subscript (JObject kvs) k = (case map_of kvs k of None \<Rightarrow> Inl (KeyError k) | Some v \<Rightarrow> Inr v)"
| "subscript _ k = Inl TypeError"

text \<open>\<open>base64.b64decode(x)\<close>: a string is decoded by the library, anything else is a type error.\<close>

fun decode_audio :: "env \<Rightarrow> json \<Rightarrow> error + bytes" where
  "decode_audio env (JString s) = (case b64decode env s of None \<Rightarrow> Inl Base64Error | Some b \<Rightarrow> Inr b)"
| "decode_audio env _ = Inl TypeError"

definition synthesize_ssml_wav ::
  "env \<Rightarrow> ustring \<Rightarrow> ustring \<Rightarrow> ustring \<Rightarrow> ustring \<Rightarrow> world \<Rightarrow> (error + bytes) \<times> world" where
  "synthesize_ssml_wav env key voice_name language_code ssml w =
     (let url = tts_url key;
          payload = tts_payload voice_name language_code ssml;
          w1 = emit (HttpPost url payload) w
      in case http_post env (trace w) url payload of
           Inl e \<Rightarrow> (Inl e, w1)
         | Inr r \<Rightarrow>
             if status_code r \<noteq> 200 then
               (let err = (case json_body r of
                             Some j \<Rightarrow> j
                           | None \<Rightarrow> JObject [(ascii ''raw'', JString (body_text r))])
                in (Inl (TTSFailed (status_code r) err), w1))
             else
               (case json_body r of
                  None \<Rightarrow> (Inl JSONDecodeError, w1)
                | Some j \<Rightarrow>
                    (case subscript j (ascii ''audioContent'') of
                       Inl e \<Rightarrow> (Inl e, w1)
                     | Inr audio_b64 \<Rightarrow> (decode_audio env audio_b64, w1))))"

subsection \<open>ffmpeg\<close>

definition ffmpeg_exists :: "env \<Rightarrow> world \<Rightarrow> bool \<times> world" where
  "ffmpeg_exists env w = (ffmpeg_version_ok env, emit (Subprocess [ascii ''ffmpeg'', ascii ''-version'']) w)"

text \<open>\<open>subprocess.run(cmd, check=True)\<close> for an ffmpeg command.\<close>

definition run_checked :: "env \<Rightarrow> ustring list \<Rightarrow> world \<Rightarrow> error option \<times> world" where
  "run_checked env cmd w =
     (let w1 = emit (Subprocess cmd) w
      in case ffmpeg env cmd (files w) of
           None \<Rightarrow> (Some (CalledProcessError cmd), w1)
         | Some out \<Rightarrow> (None, w1\<lparr>files := (files w1)(last cmd \<mapsto> out)\<rparr>))"

text \<open>The command of each target format, or the \<open>ValueError\<close> of the last branch.\<close>

definition ffmpeg_cmd :: "ustring \<Rightarrow> ustring \<Rightarrow> ustring \<Rightarrow> error + ustring list" where
  "ffmpeg_cmd fmt tmp_wav_path out_path =
     (if fmt = ascii ''wav'' then
        Inr [ascii ''ffmpeg'', ascii ''-y'', ascii ''-i'', tmp_wav_path, ascii ''-c:a'', ascii ''pcm_s16le'', out_path]
      else if fmt = ascii ''mp3'' then
        Inr [ascii ''ffmpeg'', ascii ''-y'', ascii ''-i'', tmp_wav_path, ascii ''-codec:a'', ascii ''libmp3lame'', ascii ''-q:a'', ascii ''2'', out_path]
      else if fmt = ascii ''ogg'' then
        Inr [ascii ''ffmpeg'', ascii ''-y'', ascii ''-i'', tmp_wav_path, ascii ''-codec:a'', ascii ''libvorbis'', ascii ''-q:a'', ascii ''5'', out_path]
      else Inl (UnsupportedFormat fmt))"

text \<open>
  The temporary file is created empty by \<open>mkstemp\<close>, filled with the audio, and removed in the
  \<open>finally\<close> block on both the normal and the failing exit when \<open>delete_temp\<close> holds.
\<close>

definition convert_wav_bytes_with_ffmpeg ::
  "env \<Rightarrow> bytes \<Rightarrow> ustring \<Rightarrow> ustring \<Rightarrow> bool \<Rightarrow> world \<Rightarrow> error option \<times> world" where
  "convert_wav_bytes_with_ffmpeg env wav_bytes out_path fmt delete_temp w =
     (let tmp_wav_path = mkstemp env (files w);
          w1 = w\<lparr>files := (files w)(tmp_wav_path \<mapsto> [])\<rparr>;
          w2 = w1\<lparr>files := (files w1)(tmp_wav_path \<mapsto> wav_bytes)\<rparr>;
          (res, w3) =
            (case ffmpeg_cmd fmt tmp_wav_path out_path of
               Inl e \<Rightarrow> (Some e, w2)
             | Inr cmd \<Rightarrow> run_checked env cmd w2);
          w4 = (if delete_temp \<and> files w3 tmp_wav_path \<noteq> None
                then w3\<lparr>files := (files w3)(tmp_wav_path := None)\<rparr> else w3)
      in (res, w4))"

definition write_direct_wav :: "bytes \<Rightarrow> ustring \<Rightarrow> world \<Rightarrow> world" where
  "write_direct_wav wav_bytes out_path w = w\<lparr>files := (files w)(out_path \<mapsto> wav_bytes)\<rparr>"

subsection \<open>The loop body and main\<close>

text \<open>The loop variables of \<open>main\<close>, with the world they act on.\<close>

record loop_state =
  generated :: nat
  skipped :: nat
  seen_ids :: "ustring set"
  lworld :: world

text \<open>\<open>str(row.get(args.id_col, "")).strip()\<close> and \<open>(row.get(args.ssml_col) or "").strip()\<close>\<close>

definition row_id_of :: "args \<Rightarrow> row \<Rightarrow> ustring" where
  "row_id_of a r = py_strip (py_str (row_get r (id_col a) (Some [])))"

definition ssml_of :: "args \<Rightarrow> row \<Rightarrow> ustring" where
  "ssml_of a r = py_strip (case row_get r (ssml_col a) None of None \<Rightarrow> [] | Some s \<Rightarrow> s)"

text \<open>\<open>wanted_ids is not None and row_id not in wanted_ids\<close>\<close>

definition filtered_out :: "ustring set option \<Rightarrow> ustring \<Rightarrow> bool" where
  "filtered_out wanted_ids row_id = (case wanted_ids of None \<Rightarrow> False | Some W \<Rightarrow> row_id \<notin> W)"

text \<open>The three output branches of the loop body (the code under the comment "Output").\<close>

definition write_output :: "args \<Rightarrow> env \<Rightarrow> ustring \<Rightarrow> bytes \<Rightarrow> world \<Rightarrow> error option \<times> world" where
  "write_output a env row_id wav_bytes w =
     (if format a = Wav \<and> \<not> use_ffmpeg a then
        (let out_path = joinpath (outdir a) (row_id @ ascii ''.wav'');
             w1 = write_direct_wav wav_bytes out_path w
         in (None, emit (Print (Wrote out_path)) w1))
      else if format a = Wav \<and> use_ffmpeg a then
        (let out_path = joinpath (outdir a) (row_id @ ascii ''.wav'')
         in case convert_wav_bytes_with_ffmpeg env wav_bytes out_path (ascii ''wav'') True w of
              (Some e, w1) \<Rightarrow> (Some e, w1)
            | (None, w1) \<Rightarrow> (None, emit (Print (Wrote out_path)) w1))
      else
        (let intermediate_wav = joinpath (outdir a) (row_id @ ascii ''.wav'')
         in if delete_original_wav a then
              (let out_path = joinpath (outdir a) (row_id @ ascii ''.'' @ fmt_name (format a))
               in case convert_wav_bytes_with_ffmpeg env wav_bytes out_path (fmt_name (format a)) True w of
                    (Some e, w1) \<Rightarrow> (Some e, w1)
                  | (None, w1) \<Rightarrow> (None, emit (Print (WroteNoIntermediate out_path)) w1))
            else
              (let w1 = write_direct_wav wav_bytes intermediate_wav w;
                   out_path = joinpath (outdir a) (row_id @ ascii ''.'' @ fmt_name (format a))
               in case run_checked env [ascii ''ffmpeg'', ascii ''-y'', ascii ''-i'', intermediate_wav, out_path] w1 of
                    (Some e, w2) \<Rightarrow> (Some e, w2)
                  | (None, w2) \<Rightarrow> (None, emit (Print (WroteKept out_path intermediate_wav)) w2))))"

text \<open>One iteration of \<open>for row in reader\<close>; \<open>Some e\<close> is an exception leaving the loop.\<close>

definition process_row ::
  "args \<Rightarrow> env \<Rightarrow> ustring set option \<Rightarrow> loop_state \<Rightarrow> row \<Rightarrow> error option \<times> loop_state" where
  "process_row a env wanted_ids st row =
     (let row_id = row_id_of a row
      in if row_id = [] then (None, st\<lparr>skipped := skipped st + 1\<rparr>)
         else
           (let st1 = st\<lparr>seen_ids := insert row_id (seen_ids st)\<rparr>
            in if filtered_out wanted_ids row_id then (None, st1)
               else
                 (let ssml = ssml_of a row
                  in if ssml = [] then
                       (None, st1\<lparr>skipped := skipped st1 + 1,
                                  lworld := emit (Print (SkippingEmptySsml row_id)) (lworld st1)\<rparr>)
                     else
                       (case synthesize_ssml_wav env (api_key a) (voice a) (lang a) ssml (lworld st1) of
                          (Inl e, w1) \<Rightarrow> (Some e, st1\<lparr>lworld := w1\<rparr>)
                        | (Inr wav_bytes, w1) \<Rightarrow>
                            (case write_output a env row_id wav_bytes w1 of
                               (Some e, w2) \<Rightarrow> (Some e, st1\<lparr>lworld := w2\<rparr>)
                             | (None, w2) \<Rightarrow>
                                 (None, st1\<lparr>lworld := w2, generated := generated st1 + 1\<rparr>))))))"

fun run_rows ::
  "args \<Rightarrow> env \<Rightarrow> ustring set option \<Rightarrow> loop_state \<Rightarrow> row list \<Rightarrow> error option \<times> loop_state" where
  "run_rows a env wanted_ids st [] = (None, st)"
| "run_rows a env wanted_ids st (r # rs) =
     (case process_row a env wanted_ids st r of
        (Some e, st') \<Rightarrow> (Some e, st')
      | (None, st') \<Rightarrow> run_rows a env wanted_ids st' rs)"

text \<open>How the process ends: normally, by \<open>sys.exit(n)\<close>, or by an exception nobody catches.\<close>

datatype outcome = Completed | SysExit nat | Uncaught error

definition report_not_found :: "ustring set option \<Rightarrow> loop_state \<Rightarrow> world" where
  "report_not_found wanted_ids st =
     (case wanted_ids of
        None \<Rightarrow> lworld st
      | Some W \<Rightarrow>
          (let not_found = sorted_list_of_set (W - seen_ids st)
           in if not_found \<noteq> [] then emit (Print (IdsNotFound not_found)) (lworld st)
              else lworld st))"

definition main :: "args \<Rightarrow> env \<Rightarrow> world \<Rightarrow> outcome \<times> world" where
  "main a env w0 =
     (let wanted_ids = parse_ids (ids a)
      in if \<not> csv_exists env then (SysExit 1, emit (PrintErr (CsvNotFound (csv a))) w0)
         else if (format a = Mp3 \<or> format a = Ogg) \<and> \<not> use_ffmpeg a then
           (SysExit 2, emit (PrintErr NeedFfmpeg) w0)
         else
           (let (found, w1) = (if use_ffmpeg a then ffmpeg_exists env w0 else (True, w0))
            in if use_ffmpeg a \<and> \<not> found then (SysExit 3, emit (PrintErr FfmpegNotFound) w1)
               else
                 (case csv_fieldnames env of
                    None \<Rightarrow> (Uncaught CsvEmpty, w1)
                  | Some fieldnames \<Rightarrow>
                      if fieldnames = [] then (Uncaught CsvEmpty, w1)
                      else if id_col a \<notin> set fieldnames then
                        (Uncaught (MissingIdColumn (id_col a) fieldnames), w1)
                      else if ssml_col a \<notin> set fieldnames then
                        (Uncaught (MissingSsmlColumn (ssml_col a) fieldnames), w1)
                      else
                        (case run_rows a env wanted_ids
                                \<lparr>generated = 0, skipped = 0, seen_ids = {}, lworld = w1\<rparr>
                                (csv_rows env) of
                           (Some e, st) \<Rightarrow> (Uncaught e, lworld st)
                         | (None, st) \<Rightarrow>
                             (Completed,
                              emit (Print (DoneSummary (generated st) (skipped st)))
                                (report_not_found wanted_ids st))))))"

subsection \<open>Observations on a run\<close>

text \<open>The requests sent to the remote service, in order.\<close>

fun http_posts :: "event list \<Rightarrow> (ustring \<times> json) list" where
  "http_posts [] = []"
| "http_posts (HttpPost u p # es) = (u, p) # http_posts es"
| "http_posts (e # es) = http_posts es"

text \<open>The commands run as subprocesses, in order.\<close>

fun subprocesses :: "event list \<Rightarrow> ustring list list" where
  "subprocesses [] = []"
| "subprocesses (Subprocess c # es) = c # subprocesses es"
| "subprocesses (e # es) = subprocesses es"

text \<open>The identifier lists printed after "IDs not found in CSV:".\<close>

fun not_found_reports :: "event list \<Rightarrow> ustring list list" where
  "not_found_reports [] = []"
| "not_found_reports (Print (IdsNotFound xs) # es) = xs # not_found_reports es"
| "not_found_reports (e # es) = not_found_reports es"

text \<open>The (generated, skipped) pairs printed in the closing "Done." line.\<close>

fun summaries :: "event list \<Rightarrow> (nat \<times> nat) list" where
  "summaries [] = []"
| "summaries (Print (DoneSummary g s) # es) = (g, s) # summaries es"
| "summaries (e # es) = summaries es"

text \<open>The request that submitting a row's markup sends.\<close>

definition tts_request :: "args \<Rightarrow> row \<Rightarrow> ustring \<times> json" where
  "tts_request a r = (tts_url (api_key a), tts_payload (voice a) (lang a) (ssml_of a r))"

text \<open>
  A row is submitted when its identifier is not empty, the filter lets it through and its
  markup is not empty; it is counted as skipped when its identifier is empty, or when it
  reaches the markup test and the markup is empty.
\<close>

definition is_submitted :: "args \<Rightarrow> ustring set option \<Rightarrow> row \<Rightarrow> bool" where
  "is_submitted a wanted_ids r =
     (row_id_of a r \<noteq> [] \<and> \<not> filtered_out wanted_ids (row_id_of a r) \<and> ssml_of a r \<noteq> [])"

definition is_skipped :: "args \<Rightarrow> ustring set option \<Rightarrow> row \<Rightarrow> bool" where
  "is_skipped a wanted_ids r =
     (row_id_of a r = [] \<or> (\<not> filtered_out wanted_ids (row_id_of a r) \<and> ssml_of a r = []))"

text \<open>The events that writing a row's output can add: subprocess calls and "Wrote" lines.\<close>

fun output_event :: "event \<Rightarrow> bool" where
  "output_event (Subprocess c) = True"
| "output_event (Print (Wrote p)) = True"
| "output_event (Print (WroteNoIntermediate p)) = True"
| "output_event (Print (WroteKept p q)) = True"
| "output_event e = False"

text \<open>The separators of the \<open>--ids\<close> argument, and a token between them.\<close>

definition is_sep :: "nat \<Rightarrow> bool" where
  "is_sep c = (c = of_char CHR '','' \<or> py_isspace c)"

definition is_token :: "ustring \<Rightarrow> bool" where
  "is_token t = (t \<noteq> [] \<and> list_all (\<lambda>c. \<not> is_sep c) t)"

subsection \<open>Example inputs\<close>

definition ex_world :: world where
  "ex_world = \<lparr>files = Map.empty, trace = []\<rparr>"

text \<open>The defaults of the argument parser, with an API key.\<close>

definition ex_args :: args where
  "ex_args = \<lparr>api_key = ascii ''KEY'', csv = ascii ''transcripts.csv'', outdir = ascii ''out_audio'', ids = None,
     id_col = ascii ''id'', ssml_col = ascii ''ssml'', voice = ascii ''en-GB-Chirp3-HD-Leda'', lang = ascii ''en-GB'',
     format = Mp3, use_ffmpeg = False, delete_original_wav = False\<rparr>"

definition ex_rows :: "row list" where
  "ex_rows =
     [[(ascii ''id'', Some (ascii ''1'')), (ascii ''ssml'', Some (ascii ''<speak>one</speak>''))],
      [(ascii ''id'', Some (ascii ''2'')), (ascii ''ssml'', Some (ascii ''<speak>two</speak>''))],
      [(ascii ''id'', Some (ascii ''3'')), (ascii ''ssml'', Some (ascii ''<speak>three</speak>''))]]"

text \<open>A decoder that knows one payload: the base64 text of the four bytes RIFF.\<close>

definition ex_b64decode :: "ustring \<Rightarrow> bytes option" where
  "ex_b64decode s = (if s = ascii ''UklGRg=='' then Some [0x52, 0x49, 0x46, 0x46] else None)"

definition ex_response :: response where
  "ex_response = \<lparr>status_code = 200,
     json_body = Some (JObject [(ascii ''audioContent'', JString (ascii ''UklGRg==''))]),
     body_text = ascii ''{audioContent: UklGRg==}''\<rparr>"

text \<open>A transcoder that succeeds when its input file (the fourth word) exists, and copies it.\<close>

fun ex_ffmpeg :: "ustring list \<Rightarrow> (ustring \<rightharpoonup> bytes) \<Rightarrow> bytes option" where
  "ex_ffmpeg (prog # y # i # inp # rest) fs = fs inp"
| "ex_ffmpeg cmd fs = None"

definition ex_env :: env where
  "ex_env = \<lparr>csv_exists = True, csv_fieldnames = Some [ascii ''id'', ascii ''ssml''], csv_rows = ex_rows,
     ffmpeg_version_ok = True, http_post = (\<lambda>tr url payload. Inr ex_response),
     b64decode = ex_b64decode, ffmpeg = ex_ffmpeg, mkstemp = (\<lambda>fs. (ascii ''/tmp/tmpk3v9x2ab.wav''))\<rparr>"

section \<open>Properties\<close>

subsection \<open>Literals\<close>

lemma ascii_eq_iff [simp]: "ascii s = ascii t \<longleftrightarrow> s = t"
proof -
  have "inj (of_char :: char \<Rightarrow> nat)" by (rule injI) simp
  then show ?thesis by (simp add: ascii_def inj_map_eq_map)
qed

lemma ascii_eq_Nil [simp]: "ascii s = [] \<longleftrightarrow> s = []"
  by (simp add: ascii_def)

lemma dot_wav [simp]: "ascii ''.'' @ ascii ''wav'' = ascii ''.wav''"
  by (simp add: ascii_def)

subsection \<open>The configuration checks\<close>

lemma main_no_csv:
  "\<not> csv_exists env \<Longrightarrow> main a env w = (SysExit 1, emit (PrintErr (CsvNotFound (csv a))) w)"
  by (simp add: main_def)

lemma main_need_ffmpeg:
  "csv_exists env \<Longrightarrow> format a \<noteq> Wav \<Longrightarrow> \<not> use_ffmpeg a \<Longrightarrow>
   main a env w = (SysExit 2, emit (PrintErr NeedFfmpeg) w)"
  by (cases "format a") (simp_all add: main_def)

lemma main_ffmpeg_missing:
  "csv_exists env \<Longrightarrow> use_ffmpeg a \<Longrightarrow> \<not> ffmpeg_version_ok env \<Longrightarrow>
   main a env w =
     (SysExit 3, emit (PrintErr FfmpegNotFound) (emit (Subprocess [ascii ''ffmpeg'', ascii ''-version'']) w))"
  by (simp add: main_def ffmpeg_exists_def)

lemma main_past_checks:
  assumes "csv_exists env" and "format a = Wav \<or> use_ffmpeg a"
    and "use_ffmpeg a \<Longrightarrow> ffmpeg_version_ok env"
  shows "fst (main a env w) \<noteq> SysExit n"
  using assms
  by (auto simp: main_def ffmpeg_exists_def Let_def split: option.splits prod.splits if_splits)

lemma http_posts_append: "http_posts (xs @ ys) = http_posts xs @ http_posts ys"
  by (induction xs rule: http_posts.induct) simp_all

lemma subprocesses_append: "subprocesses (xs @ ys) = subprocesses xs @ subprocesses ys"
  by (induction xs rule: subprocesses.induct) simp_all

lemma not_found_reports_append:
  "not_found_reports (xs @ ys) = not_found_reports xs @ not_found_reports ys"
  by (induction xs rule: not_found_reports.induct) simp_all

lemma summaries_append: "summaries (xs @ ys) = summaries xs @ summaries ys"
  by (induction xs rule: summaries.induct) simp_all

text \<open>
  Claim C4. The three configuration checks of \<open>main\<close> yield the exit codes 1, 2 and 3 and no
  other: the run exits with code 1 exactly when the dataset file does not exist; with code 2
  exactly when the dataset exists and mp3 or ogg is requested without \<open>--use-ffmpeg\<close>; with
  code 3 exactly when the dataset exists, \<open>--use-ffmpeg\<close> is given and \<open>ffmpeg -version\<close> fails;
  and whenever the run ends by \<open>sys.exit\<close> the code is one of these three. The checks are made
  in this order, so the first one that fails decides the code.
\<close>

theorem main_exit_codes:
  "(fst (main a env w) = SysExit 1 \<longleftrightarrow> \<not> csv_exists env) \<and>
   (fst (main a env w) = SysExit 2 \<longleftrightarrow>
      csv_exists env \<and> (format a = Mp3 \<or> format a = Ogg) \<and> \<not> use_ffmpeg a) \<and>
   (fst (main a env w) = SysExit 3 \<longleftrightarrow>
      csv_exists env \<and> use_ffmpeg a \<and> \<not> ffmpeg_version_ok env) \<and>
   (\<forall>n. fst (main a env w) = SysExit n \<longrightarrow> n = 1 \<or> n = 2 \<or> n = 3)"
proof -
  consider (nocsv) "\<not> csv_exists env"
    | (lossy) "csv_exists env" "format a \<noteq> Wav" "\<not> use_ffmpeg a"
    | (missing) "csv_exists env" "use_ffmpeg a" "\<not> ffmpeg_version_ok env"
    | (past) "csv_exists env" "format a = Wav \<or> use_ffmpeg a"
        "use_ffmpeg a \<longrightarrow> ffmpeg_version_ok env"
    by blast
  then show ?thesis
  proof cases
    case nocsv
    then show ?thesis by (simp add: main_no_csv)
  next
    case lossy
    then show ?thesis by (cases "format a") (simp_all add: main_need_ffmpeg)
  next
    case missing
    then show ?thesis by (simp add: main_ffmpeg_missing)
  next
    case past
    then have "\<And>n. fst (main a env w) \<noteq> SysExit n"
      by (intro main_past_checks) auto
    with past show ?thesis by (cases "format a") auto
  qed
qed

theorem main_exit_codes_witness:
  "csv_exists ex_env \<and> format ex_args = Mp3 \<and> \<not> use_ffmpeg ex_args \<and>
   fst (main ex_args ex_env ex_world) = SysExit 2 \<and>
   fst (main ex_args (ex_env\<lparr>csv_exists := False\<rparr>) ex_world) = SysExit 1 \<and>
   fst (main (ex_args\<lparr>use_ffmpeg := True\<rparr>) (ex_env\<lparr>ffmpeg_version_ok := False\<rparr>) ex_world)
     = SysExit 3"
  using main_exit_codes [of ex_args ex_env ex_world]
    main_exit_codes [of ex_args "ex_env\<lparr>csv_exists := False\<rparr>" ex_world]
    main_exit_codes [of "ex_args\<lparr>use_ffmpeg := True\<rparr>" "ex_env\<lparr>ffmpeg_version_ok := False\<rparr>" ex_world]
  by (simp add: ex_args_def ex_env_def)

text \<open>
  Claim C5. When mp3 or ogg is requested without \<open>--use-ffmpeg\<close>, the run ends by \<open>sys.exit\<close>
  (code 2, or code 1 when the dataset is missing as well) having sent no request to the
  remote service and written no file; the only event is one line on stderr.
\<close>

theorem lossy_without_ffmpeg_exits_before_any_request:
  assumes "format a = Mp3 \<or> format a = Ogg" and "\<not> use_ffmpeg a"
  shows "fst (main a env w) = SysExit (if csv_exists env then 2 else 1) \<and>
         http_posts (trace (snd (main a env w))) = http_posts (trace w) \<and>
         files (snd (main a env w)) = files w \<and>
         (\<exists>m. trace (snd (main a env w)) = trace w @ [PrintErr m])"
proof (cases "csv_exists env")
  case True
  from assms(1) have "format a \<noteq> Wav" by auto
  with True assms(2) show ?thesis
    by (simp add: main_need_ffmpeg emit_def http_posts_append)
next
  case False
  then show ?thesis
    by (simp add: main_no_csv emit_def http_posts_append)
qed

theorem lossy_without_ffmpeg_exits_before_any_request_witness:
  "format ex_args = Mp3 \<and> \<not> use_ffmpeg ex_args \<and>
   fst (main ex_args ex_env ex_world) = SysExit 2 \<and>
   http_posts (trace (snd (main ex_args ex_env ex_world))) = [] \<and>
   files (snd (main ex_args ex_env ex_world)) = Map.empty"
  using lossy_without_ffmpeg_exits_before_any_request [of ex_args ex_env ex_world]
  by (simp add: ex_args_def ex_env_def ex_world_def)

subsection \<open>The remote synthesis call\<close>

lemma synthesize_world:
  "snd (synthesize_ssml_wav env key v l ssml w) = emit (HttpPost (tts_url key) (tts_payload v l ssml)) w"
  by (simp add: synthesize_ssml_wav_def Let_def split: sum.splits option.splits)

lemma synthesize_failure:
  assumes "http_post env (trace w) (tts_url key) (tts_payload v l ssml) = Inr r"
    and "status_code r \<noteq> 200"
  shows "fst (synthesize_ssml_wav env key v l ssml w) =
           Inl (TTSFailed (status_code r)
                 (case json_body r of Some j \<Rightarrow> j | None \<Rightarrow> JObject [(ascii ''raw'', JString (body_text r))]))"
  using assms by (simp add: synthesize_ssml_wav_def Let_def)

lemma synthesize_success:
  assumes "http_post env (trace w) (tts_url key) (tts_payload v l ssml) = Inr r"
    and "status_code r = 200" and "json_body r = Some j"
    and "subscript j (ascii ''audioContent'') = Inr (JString s)" and "b64decode env s = Some b"
  shows "fst (synthesize_ssml_wav env key v l ssml w) = Inr b"
  using assms by (simp add: synthesize_ssml_wav_def Let_def)

lemma decode_audio_Inr:
  "decode_audio env x = Inr b \<Longrightarrow> \<exists>s. x = JString s \<and> b64decode env s = Some b"
  by (cases x) (auto split: option.splits)

lemma synthesize_returns:
  assumes "fst (synthesize_ssml_wav env key v l ssml w) = Inr b"
  shows "\<exists>r j s. http_post env (trace w) (tts_url key) (tts_payload v l ssml) = Inr r \<and>
           status_code r = 200 \<and> json_body r = Some j \<and>
           subscript j (ascii ''audioContent'') = Inr (JString s) \<and> b64decode env s = Some b"
  using assms
  by (auto simp: synthesize_ssml_wav_def Let_def split: sum.splits option.splits if_splits
      dest: decode_audio_Inr)

text \<open>
  Claim C9, as the code has it. \<open>synthesize_ssml_wav\<close> sends exactly one request and touches
  no file, whatever the answer. It returns audio bytes only if the response status is 200,
  and then they are the base64 decoding of the \<open>audioContent\<close> string of the JSON body;
  whenever a 200 response carries such a body it does return them. For any other status it
  raises the failure that carries the status code and the response body (the parsed JSON,
  or the raw text when the body is not JSON).
\<close>

theorem synthesize_contract:
  "trace (snd (synthesize_ssml_wav env key v l ssml w))
     = trace w @ [HttpPost (tts_url key) (tts_payload v l ssml)] \<and>
   files (snd (synthesize_ssml_wav env key v l ssml w)) = files w \<and>
   (\<forall>b. fst (synthesize_ssml_wav env key v l ssml w) = Inr b \<longrightarrow>
      (\<exists>r j s. http_post env (trace w) (tts_url key) (tts_payload v l ssml) = Inr r \<and>
         status_code r = 200 \<and> json_body r = Some j \<and>
         subscript j (ascii ''audioContent'') = Inr (JString s) \<and> b64decode env s = Some b)) \<and>
   (\<forall>r j s b. http_post env (trace w) (tts_url key) (tts_payload v l ssml) = Inr r \<and>
         status_code r = 200 \<and> json_body r = Some j \<and>
         subscript j (ascii ''audioContent'') = Inr (JString s) \<and> b64decode env s = Some b \<longrightarrow>
      fst (synthesize_ssml_wav env key v l ssml w) = Inr b) \<and>
   (\<forall>r. http_post env (trace w) (tts_url key) (tts_payload v l ssml) = Inr r \<and>
         status_code r \<noteq> 200 \<longrightarrow>
      fst (synthesize_ssml_wav env key v l ssml w) =
        Inl (TTSFailed (status_code r)
              (case json_body r of Some j \<Rightarrow> j
               | None \<Rightarrow> JObject [(ascii ''raw'', JString (body_text r))])))"
  using synthesize_returns [of env key v l ssml w]
    synthesize_success [of env w key v l ssml] synthesize_failure [of env w key v l ssml]
  by (simp add: synthesize_world emit_def)

text \<open>
  The status alone does not decide: a 200 response whose JSON body has no \<open>audioContent\<close>
  makes the call raise \<open>KeyError\<close> instead of returning bytes.
\<close>

theorem synthesize_success_without_audio_raises:
  "fst (synthesize_ssml_wav
         (ex_env\<lparr>http_post := (\<lambda>tr url payload.
            Inr \<lparr>status_code = 200, json_body = Some (JObject []), body_text = ascii ''{}''\<rparr>)\<rparr>)
         (ascii ''KEY'') (ascii ''en-GB-Chirp3-HD-Leda'') (ascii ''en-GB'') (ascii ''<speak>one</speak>'') ex_world)
     = Inl (KeyError (ascii ''audioContent''))"
  by (simp add: synthesize_ssml_wav_def ex_env_def Let_def)

theorem synthesize_contract_witness:
  "http_post ex_env (trace ex_world) (tts_url (ascii ''KEY'')) (tts_payload (ascii ''v'') (ascii ''en-GB'') (ascii ''<speak>one</speak>'')) = Inr ex_response \<and>
   status_code ex_response = 200 \<and>
   json_body ex_response = Some (JObject [(ascii ''audioContent'', JString (ascii ''UklGRg==''))]) \<and>
   subscript (JObject [(ascii ''audioContent'', JString (ascii ''UklGRg==''))]) (ascii ''audioContent'') = Inr (JString (ascii ''UklGRg=='')) \<and>
   b64decode ex_env (ascii ''UklGRg=='') = Some [0x52, 0x49, 0x46, 0x46] \<and>
   fst (synthesize_ssml_wav ex_env (ascii ''KEY'') (ascii ''v'') (ascii ''en-GB'') (ascii ''<speak>one</speak>'') ex_world)
     = Inr [0x52, 0x49, 0x46, 0x46] \<and>
   trace (snd (synthesize_ssml_wav ex_env (ascii ''KEY'') (ascii ''v'') (ascii ''en-GB'') (ascii ''<speak>one</speak>'') ex_world))
     = [HttpPost (tts_url (ascii ''KEY'')) (tts_payload (ascii ''v'') (ascii ''en-GB'') (ascii ''<speak>one</speak>''))]"
proof -
  have h: "http_post ex_env (trace ex_world) (tts_url (ascii ''KEY'')) (tts_payload (ascii ''v'') (ascii ''en-GB'') (ascii ''<speak>one</speak>'')) = Inr ex_response \<and>
   status_code ex_response = 200 \<and>
   json_body ex_response = Some (JObject [(ascii ''audioContent'', JString (ascii ''UklGRg==''))]) \<and>
   subscript (JObject [(ascii ''audioContent'', JString (ascii ''UklGRg==''))]) (ascii ''audioContent'') = Inr (JString (ascii ''UklGRg=='')) \<and>
   b64decode ex_env (ascii ''UklGRg=='') = Some [0x52, 0x49, 0x46, 0x46]"
    by (simp add: ex_env_def ex_response_def ex_b64decode_def)
  from synthesize_contract [of ex_env "ascii ''KEY''" "ascii ''v''" "ascii ''en-GB''" "ascii ''<speak>one</speak>''" ex_world] h
  have "fst (synthesize_ssml_wav ex_env (ascii ''KEY'') (ascii ''v'') (ascii ''en-GB'') (ascii ''<speak>one</speak>'') ex_world)
     = Inr [0x52, 0x49, 0x46, 0x46]" by blast
  moreover from synthesize_contract [of ex_env "ascii ''KEY''" "ascii ''v''" "ascii ''en-GB''" "ascii ''<speak>one</speak>''" ex_world]
  have "trace (snd (synthesize_ssml_wav ex_env (ascii ''KEY'') (ascii ''v'') (ascii ''en-GB'') (ascii ''<speak>one</speak>'') ex_world))
     = [HttpPost (tts_url (ascii ''KEY'')) (tts_payload (ascii ''v'') (ascii ''en-GB'') (ascii ''<speak>one</speak>''))]"
    by (simp add: ex_world_def)
  ultimately show ?thesis using h by simp
qed

subsection \<open>The header check\<close>

lemma main_header_check:
  assumes "csv_exists env" and "format a = Wav \<or> use_ffmpeg a"
    and "use_ffmpeg a \<longrightarrow> ffmpeg_version_ok env"
    and "csv_fieldnames env = Some fs" and "fs \<noteq> []"
    and "id_col a \<notin> set fs \<or> ssml_col a \<notin> set fs"
  shows "main a env w =
           (Uncaught (if id_col a \<notin> set fs then MissingIdColumn (id_col a) fs
                      else MissingSsmlColumn (ssml_col a) fs),
            if use_ffmpeg a then emit (Subprocess [ascii ''ffmpeg'', ascii ''-version'']) w else w)"
  using assms by (cases "format a") (auto simp: main_def ffmpeg_exists_def)

text \<open>
  Claim C3, as the code has it. When the dataset exists, the format and transcoder checks
  pass and the header is not empty, a header that lacks the identifier column or the markup
  column makes the run fail before any row is processed: no request is sent, no file is
  written, and the only event is the \<open>ffmpeg -version\<close> probe when \<open>--use-ffmpeg\<close> is given.
  The failure is an uncaught \<open>KeyError\<close> naming the missing column and the header found (the
  identifier column first); the run does not end by \<open>sys.exit\<close>, so no exit code of its own
  is attached to it.
\<close>

theorem missing_column_raises_before_rows:
  assumes "csv_exists env" and "format a = Wav \<or> use_ffmpeg a"
    and "use_ffmpeg a \<longrightarrow> ffmpeg_version_ok env"
    and "csv_fieldnames env = Some fs" and "fs \<noteq> []"
    and "id_col a \<notin> set fs \<or> ssml_col a \<notin> set fs"
  shows "fst (main a env w) =
           Uncaught (if id_col a \<notin> set fs then MissingIdColumn (id_col a) fs
                     else MissingSsmlColumn (ssml_col a) fs) \<and>
         (\<forall>n. fst (main a env w) \<noteq> SysExit n) \<and>
         trace (snd (main a env w)) =
           trace w @ (if use_ffmpeg a then [Subprocess [ascii ''ffmpeg'', ascii ''-version'']] else []) \<and>
         http_posts (trace (snd (main a env w))) = http_posts (trace w) \<and>
         files (snd (main a env w)) = files w"
  by (simp add: main_header_check [OF assms] emit_def http_posts_append)

text \<open>
  With the header \<open>ident,ssml\<close> and the default column names the run ends by the uncaught
  \<open>KeyError\<close>, not by \<open>sys.exit\<close> with a code.
\<close>

theorem missing_column_is_not_an_exit_code:
  "main (ex_args\<lparr>format := Wav\<rparr>) (ex_env\<lparr>csv_fieldnames := Some [ascii ''ident'', ascii ''ssml'']\<rparr>) ex_world
     = (Uncaught (MissingIdColumn (ascii ''id'') [ascii ''ident'', ascii ''ssml'']), ex_world)"
  by (simp add: main_def ex_args_def ex_env_def ascii_def)

theorem missing_column_raises_before_rows_witness:
  "csv_exists (ex_env\<lparr>csv_fieldnames := Some [ascii ''id'', ascii ''text'']\<rparr>) \<and>
   format (ex_args\<lparr>format := Wav\<rparr>) = Wav \<and>
   csv_fieldnames (ex_env\<lparr>csv_fieldnames := Some [ascii ''id'', ascii ''text'']\<rparr>) = Some [ascii ''id'', ascii ''text''] \<and>
   ssml_col (ex_args\<lparr>format := Wav\<rparr>) \<notin> set [ascii ''id'', ascii ''text''] \<and>
   fst (main (ex_args\<lparr>format := Wav\<rparr>) (ex_env\<lparr>csv_fieldnames := Some [ascii ''id'', ascii ''text'']\<rparr>) ex_world)
     = Uncaught (MissingSsmlColumn (ascii ''ssml'') [ascii ''id'', ascii ''text'']) \<and>
   trace (snd (main (ex_args\<lparr>format := Wav\<rparr>)
                 (ex_env\<lparr>csv_fieldnames := Some [ascii ''id'', ascii ''text'']\<rparr>) ex_world)) = []"
  using missing_column_raises_before_rows
    [of "ex_env\<lparr>csv_fieldnames := Some [ascii ''id'', ascii ''text'']\<rparr>" "ex_args\<lparr>format := Wav\<rparr>"
        "[ascii ''id'', ascii ''text'']" ex_world]
  by (simp add: ex_args_def ex_env_def ex_world_def ascii_def)

subsection \<open>Writing the output of a row\<close>

lemmas eval_defs = main_def process_row_def write_output_def convert_wav_bytes_with_ffmpeg_def
  run_checked_def ffmpeg_cmd_def write_direct_wav_def synthesize_ssml_wav_def ffmpeg_exists_def
  report_not_found_def parse_ids_def row_id_of_def ssml_of_def filtered_out_def row_get_def
  py_strip_def py_split_def py_isspace_def replace_commas_def emit_def
  joinpath_def path_str_def path_div_def Path_def path_parts_def path_root_def slash_def ascii_def
  tts_url_def tts_payload_def
  ex_args_def ex_env_def ex_rows_def ex_world_def ex_response_def ex_b64decode_def Let_def

lemma split_char_nonempty: "split_char c cur s \<noteq> []"
  by (induction s arbitrary: cur) simp_all

lemma split_char_no_sep: "c \<notin> set t \<Longrightarrow> split_char c cur t = [rev cur @ t]"
  by (induction t arbitrary: cur) auto

lemma split_char_append:
  "c \<notin> set t \<Longrightarrow>
   split_char c cur (s @ t) = butlast (split_char c cur s) @ [last (split_char c cur s) @ t]"
  by (induction s arbitrary: cur) (simp_all add: split_char_no_sep split_char_nonempty)

lemma path_parts_append:
  assumes "slash \<notin> set x" and "2 \<le> length x"
  shows "path_parts (s @ x)
           = filter (\<lambda>x. x \<noteq> [] \<and> x \<noteq> ascii ''.'') (butlast (split_char slash [] s))
             @ [last (split_char slash [] s) @ x]"
proof -
  have "last (split_char slash [] s) @ x \<noteq> []" using assms(2) by auto
  moreover have "last (split_char slash [] s) @ x \<noteq> ascii ''.''"
  proof
    assume "last (split_char slash [] s) @ x = ascii ''.''"
    then have "length (last (split_char slash [] s) @ x) = 1" by (simp add: ascii_def)
    with assms(2) show False by simp
  qed
  ultimately show ?thesis
    by (simp add: path_parts_def split_char_append [OF assms(1)])
qed

lemma path_root_append:
  assumes "slash \<notin> set x" and "s \<noteq> []"
  shows "path_root (s @ x) = path_root s"
proof -
  have "takeWhile (\<lambda>c. c = slash) (s @ x) = takeWhile (\<lambda>c. c = slash) s"
  proof (cases "\<forall>c \<in> set s. c = slash")
    case True
    have "takeWhile (\<lambda>c. c = slash) x = []"
      using assms(1) by (cases x) auto
    moreover have "takeWhile (\<lambda>c. c = slash) (s @ x) = s @ takeWhile (\<lambda>c. c = slash) x"
      using True by (simp add: takeWhile_append2)
    moreover have "takeWhile (\<lambda>c. c = slash) s = s"
      using True by (simp add: takeWhile_eq_all_conv)
    ultimately show ?thesis by (simp only: append_Nil2)
  next
    case False
    then obtain c where "c \<in> set s" "c \<noteq> slash" by blast
    then show ?thesis by (simp add: takeWhile_append1)
  qed
  then show ?thesis by (simp add: path_root_def)
qed

lemma join_parts_snoc:
  "join_parts (q @ [x]) = (if q = [] then x else join_parts q @ slash # x)"
  by (induction q rule: join_parts.induct) simp_all

lemma joinpath_ext:
  assumes "rid \<noteq> []"
  shows "\<exists>pre. \<forall>x. slash \<notin> set x \<longrightarrow> 2 \<le> length x \<longrightarrow> joinpath d (rid @ x) = pre @ x"
proof -
  let ?F = "filter (\<lambda>x. x \<noteq> [] \<and> x \<noteq> ascii ''.'') (butlast (split_char slash [] rid))"
  let ?l = "last (split_char slash [] rid)"
  let ?R = "if take 1 rid = [slash] then path_root rid else path_root d"
  let ?Q = "if take 1 rid = [slash] then ?F else path_parts d @ ?F"
  let ?pre = "?R @ (if ?Q = [] then ?l else join_parts ?Q @ slash # ?l)"
  have "joinpath d (rid @ x) = ?pre @ x" if x: "slash \<notin> set x" "2 \<le> length x" for x
  proof -
    from assms have t: "take 1 (rid @ x) = take 1 rid" by (cases rid) simp_all
    have "path_div (Path d) (rid @ x) = \<lparr>proot = ?R, pparts = ?Q @ [?l @ x]\<rparr>"
      unfolding path_div_def t
      by (simp add: Path_def path_parts_append [OF x] path_root_append [OF x(1) assms])
    then show ?thesis
      by (simp add: joinpath_def path_str_def join_parts_snoc)
  qed
  then show ?thesis by blast
qed

lemma joinpath_suffix_neq:
  assumes "x \<noteq> y" and "rid \<noteq> []" and "slash \<notin> set x" and "slash \<notin> set y"
    and "2 \<le> length x" and "2 \<le> length y"
  shows "joinpath d (rid @ x) \<noteq> joinpath d (rid @ y)"
proof -
  from joinpath_ext [OF assms(2), of d] obtain pre where
    "\<forall>x. slash \<notin> set x \<longrightarrow> 2 \<le> length x \<longrightarrow> joinpath d (rid @ x) = pre @ x" ..
  with assms show ?thesis by simp
qed

lemma joinpath_wav_neq:
  assumes "f \<noteq> Wav" and "rid \<noteq> []"
  shows "joinpath d (rid @ ascii ''.wav'') \<noteq> joinpath d (rid @ ascii ''.'' @ fmt_name f)"
  using assms(1)
  by (intro joinpath_suffix_neq [OF _ assms(2)]; cases f) (simp_all add: ascii_def slash_def)

lemma ffmpeg_cmd_fmt_name:
  "\<exists>opts. ffmpeg_cmd (fmt_name f) tmp out = Inr ([ascii ''ffmpeg'', ascii ''-y'', ascii ''-i'', tmp] @ opts @ [out])"
  by (cases f) (simp_all add: ffmpeg_cmd_def)

lemma convert_files:
  assumes "convert_wav_bytes_with_ffmpeg env b out (fmt_name f) True w = (None, w')"
    and "files w (mkstemp env (files w)) = None"
    and "mkstemp env (files w) \<noteq> out"
  shows "files w' out \<noteq> None" and "p \<noteq> out \<Longrightarrow> files w' p = files w p"
proof -
  obtain opts where c: "ffmpeg_cmd (fmt_name f) (mkstemp env (files w)) out
      = Inr ([ascii ''ffmpeg'', ascii ''-y'', ascii ''-i'', mkstemp env (files w)] @ opts @ [out])"
    using ffmpeg_cmd_fmt_name by blast
  from assms c show "files w' out \<noteq> None"
    by (auto simp: convert_wav_bytes_with_ffmpeg_def run_checked_def emit_def Let_def
        split: option.splits if_splits)
  from assms c show "p \<noteq> out \<Longrightarrow> files w' p = files w p"
    by (auto simp: convert_wav_bytes_with_ffmpeg_def run_checked_def emit_def Let_def
        split: option.splits if_splits)
qed

lemma write_output_files:
  assumes ok: "write_output a env rid b w = (None, w')"
    and rid: "rid \<noteq> []"
    and fresh: "files w (mkstemp env (files w)) = None"
    and tmp: "mkstemp env (files w) \<noteq> joinpath (outdir a) (rid @ ascii ''.'' @ fmt_name (format a))"
  shows "files w' (joinpath (outdir a) (rid @ ascii ''.'' @ fmt_name (format a))) \<noteq> None"
    and "format a = Wav \<or> delete_original_wav a \<Longrightarrow>
           p \<noteq> joinpath (outdir a) (rid @ ascii ''.'' @ fmt_name (format a)) \<Longrightarrow>
           files w' p = files w p"
    and "format a \<noteq> Wav \<Longrightarrow> \<not> delete_original_wav a \<Longrightarrow>
           files w' (joinpath (outdir a) (rid @ ascii ''.wav'')) = Some b"
    and "format a \<noteq> Wav \<Longrightarrow> \<not> delete_original_wav a \<Longrightarrow>
           p \<noteq> joinpath (outdir a) (rid @ ascii ''.'' @ fmt_name (format a)) \<Longrightarrow>
           p \<noteq> joinpath (outdir a) (rid @ ascii ''.wav'') \<Longrightarrow> files w' p = files w p"
proof -
  let ?out = "joinpath (outdir a) (rid @ ascii ''.'' @ fmt_name (format a))"
  let ?wav = "joinpath (outdir a) (rid @ ascii ''.wav'')"
  have neq: "format a \<noteq> Wav \<Longrightarrow> ?wav \<noteq> ?out"
    by (rule joinpath_wav_neq [OF _ rid])
  consider (direct) "format a = Wav" "\<not> use_ffmpeg a"
    | (conv) "format a = Wav" "use_ffmpeg a"
    | (del) "format a \<noteq> Wav" "delete_original_wav a"
    | (keep) "format a \<noteq> Wav" "\<not> delete_original_wav a"
    by blast
  then have "files w' ?out \<noteq> None \<and>
    (format a = Wav \<or> delete_original_wav a \<longrightarrow> p \<noteq> ?out \<longrightarrow> files w' p = files w p) \<and>
    (format a \<noteq> Wav \<longrightarrow> \<not> delete_original_wav a \<longrightarrow> files w' ?wav = Some b) \<and>
    (format a \<noteq> Wav \<longrightarrow> \<not> delete_original_wav a \<longrightarrow> p \<noteq> ?out \<longrightarrow> p \<noteq> ?wav \<longrightarrow>
       files w' p = files w p)"
  proof cases
    case direct
    with ok show ?thesis
      by (auto simp: write_output_def write_direct_wav_def emit_def Let_def)
  next
    case conv
    with ok obtain w1 where
      c: "convert_wav_bytes_with_ffmpeg env b ?out (fmt_name Wav) True w = (None, w1)"
      and w': "w' = emit (Print (Wrote ?out)) w1"
      by (auto simp: write_output_def Let_def split: prod.splits option.splits)
    from convert_files [OF c fresh tmp] conv w' show ?thesis
      by (simp add: emit_def)
  next
    case del
    with ok obtain w1 where
      c: "convert_wav_bytes_with_ffmpeg env b ?out (fmt_name (format a)) True w = (None, w1)"
      and w': "w' = emit (Print (WroteNoIntermediate ?out)) w1"
      by (auto simp: write_output_def Let_def split: prod.splits option.splits)
    from convert_files [OF c fresh tmp] del w' show ?thesis
      by (simp add: emit_def)
  next
    case keep
    with ok neq show ?thesis
      by (auto simp: write_output_def write_direct_wav_def run_checked_def emit_def Let_def
          split: prod.splits option.splits)
  qed
  then show "files w' ?out \<noteq> None"
    and "format a = Wav \<or> delete_original_wav a \<Longrightarrow> p \<noteq> ?out \<Longrightarrow> files w' p = files w p"
    and "format a \<noteq> Wav \<Longrightarrow> \<not> delete_original_wav a \<Longrightarrow> files w' ?wav = Some b"
    and "format a \<noteq> Wav \<Longrightarrow> \<not> delete_original_wav a \<Longrightarrow> p \<noteq> ?out \<Longrightarrow> p \<noteq> ?wav \<Longrightarrow>
           files w' p = files w p"
    by blast+
qed


lemma process_row_submitted:
  assumes "is_submitted a wanted r"
  shows "process_row a env wanted st r =
     (let st1 = st\<lparr>seen_ids := insert (row_id_of a r) (seen_ids st)\<rparr>
      in case synthesize_ssml_wav env (api_key a) (voice a) (lang a) (ssml_of a r) (lworld st) of
           (Inl e, w1) \<Rightarrow> (Some e, st1\<lparr>lworld := w1\<rparr>)
         | (Inr wav_bytes, w1) \<Rightarrow>
             (case write_output a env (row_id_of a r) wav_bytes w1 of
                (Some e, w2) \<Rightarrow> (Some e, st1\<lparr>lworld := w2\<rparr>)
              | (None, w2) \<Rightarrow> (None, st1\<lparr>lworld := w2, generated := generated st1 + 1\<rparr>)))"
  using assms by (simp add: process_row_def is_submitted_def Let_def)

lemma process_row_submitted_ok:
  assumes "is_submitted a wanted r" and "process_row a env wanted st r = (None, st')"
  shows "\<exists>b w2. fst (synthesize_ssml_wav env (api_key a) (voice a) (lang a) (ssml_of a r) (lworld st)) = Inr b \<and>
           write_output a env (row_id_of a r) b
             (emit (HttpPost (tts_url (api_key a)) (tts_payload (voice a) (lang a) (ssml_of a r))) (lworld st))
             = (None, w2) \<and>
           st' = st\<lparr>seen_ids := insert (row_id_of a r) (seen_ids st), lworld := w2,
                    generated := generated st + 1\<rparr>"
proof -
  let ?syn = "synthesize_ssml_wav env (api_key a) (voice a) (lang a) (ssml_of a r) (lworld st)"
  have snd: "snd ?syn = emit (HttpPost (tts_url (api_key a)) (tts_payload (voice a) (lang a) (ssml_of a r))) (lworld st)"
    by (rule synthesize_world)
  obtain res w1 where syn: "?syn = (res, w1)" by (cases ?syn)
  with snd have w1: "w1 = emit (HttpPost (tts_url (api_key a)) (tts_payload (voice a) (lang a) (ssml_of a r))) (lworld st)"
    by simp
  from assms syn show ?thesis unfolding w1 [symmetric]
    by (auto simp: process_row_submitted Let_def split: sum.splits prod.splits option.splits)
qed

text \<open>
  Claim C1, as the code has it. A row with a non-empty identifier and non-empty markup that
  passes the filter and is processed without an exception leaves an output file at the path
  \<open>str(Path(outdir) / "id.extension")\<close>, the extension being the chosen format and the
  identifier the stripped cell (the temporary file being a fresh path other than the output
  path). When the format is wav, or \<open>--delete-original-wav\<close> is given, that file is the only
  one the row creates or changes. For mp3 or ogg without \<open>--delete-original-wav\<close> the row
  also writes the intermediate \<open>str(Path(outdir) / "id.wav")\<close>, a different path, and keeps
  it: those two files, and no other, are created or changed.
\<close>

theorem row_output_files:
  assumes "is_submitted a wanted r"
    and "process_row a env wanted st r = (None, st')"
    and "files (lworld st) (mkstemp env (files (lworld st))) = None"
    and "mkstemp env (files (lworld st))
           \<noteq> joinpath (outdir a) (row_id_of a r @ ascii ''.'' @ fmt_name (format a))"
  shows "files (lworld st') (joinpath (outdir a) (row_id_of a r @ ascii ''.'' @ fmt_name (format a))) \<noteq> None \<and>
         (format a = Wav \<or> delete_original_wav a \<longrightarrow>
            (\<forall>p. p \<noteq> joinpath (outdir a) (row_id_of a r @ ascii ''.'' @ fmt_name (format a)) \<longrightarrow>
                 files (lworld st') p = files (lworld st) p)) \<and>
         (format a \<noteq> Wav \<and> \<not> delete_original_wav a \<longrightarrow>
            joinpath (outdir a) (row_id_of a r @ ascii ''.wav'')
              \<noteq> joinpath (outdir a) (row_id_of a r @ ascii ''.'' @ fmt_name (format a)) \<and>
            files (lworld st') (joinpath (outdir a) (row_id_of a r @ ascii ''.wav'')) \<noteq> None \<and>
            (\<forall>p. p \<noteq> joinpath (outdir a) (row_id_of a r @ ascii ''.'' @ fmt_name (format a)) \<and>
                 p \<noteq> joinpath (outdir a) (row_id_of a r @ ascii ''.wav'') \<longrightarrow>
                 files (lworld st') p = files (lworld st) p))"
proof -
  let ?rid = "row_id_of a r"
  let ?w1 = "emit (HttpPost (tts_url (api_key a)) (tts_payload (voice a) (lang a) (ssml_of a r))) (lworld st)"
  from process_row_submitted_ok [OF assms(1,2)] obtain b w2 where
    wo: "write_output a env ?rid b ?w1 = (None, w2)" and st': "lworld st' = w2"
    by auto
  have rid: "?rid \<noteq> []" using assms(1) by (simp add: is_submitted_def)
  have f1: "files ?w1 = files (lworld st)" by (simp add: emit_def)
  have fresh: "files ?w1 (mkstemp env (files ?w1)) = None" using assms(3) by (simp add: f1)
  have tmp: "mkstemp env (files ?w1) \<noteq> joinpath (outdir a) (?rid @ ascii ''.'' @ fmt_name (format a))"
    using assms(4) by (simp add: f1)
  note wf = write_output_files [OF wo rid fresh tmp]
  have neq: "format a \<noteq> Wav \<Longrightarrow> joinpath (outdir a) (?rid @ ascii ''.wav'')
      \<noteq> joinpath (outdir a) (?rid @ ascii ''.'' @ fmt_name (format a))"
    by (rule joinpath_wav_neq [OF _ rid])
  show ?thesis
    using wf(1) wf(2) wf(3) wf(4) neq unfolding st' f1 by simp
qed


text \<open>
  With mp3, \<open>--use-ffmpeg\<close> and no \<open>--delete-original-wav\<close>, the run over the one-row dataset
  (id 1) completes and leaves two files for that row in the output directory.
\<close>

theorem kept_intermediate_is_a_second_file:
  "fst (main (ex_args\<lparr>use_ffmpeg := True\<rparr>)
      (ex_env\<lparr>csv_rows := [[(ascii ''id'', Some (ascii ''1'')), (ascii ''ssml'', Some (ascii ''<speak>one</speak>''))]]\<rparr>) ex_world)
     = Completed \<and>
   files (snd (main (ex_args\<lparr>use_ffmpeg := True\<rparr>)
      (ex_env\<lparr>csv_rows := [[(ascii ''id'', Some (ascii ''1'')), (ascii ''ssml'', Some (ascii ''<speak>one</speak>''))]]\<rparr>) ex_world))
      (ascii ''out_audio/1.wav'') = Some [0x52, 0x49, 0x46, 0x46] \<and>
   files (snd (main (ex_args\<lparr>use_ffmpeg := True\<rparr>)
      (ex_env\<lparr>csv_rows := [[(ascii ''id'', Some (ascii ''1'')), (ascii ''ssml'', Some (ascii ''<speak>one</speak>''))]]\<rparr>) ex_world))
      (ascii ''out_audio/1.mp3'') = Some [0x52, 0x49, 0x46, 0x46]"
  by (simp add: eval_defs)

theorem row_output_files_witness:
  "is_submitted (ex_args\<lparr>use_ffmpeg := True, delete_original_wav := True\<rparr>) None
     [(ascii ''id'', Some (ascii ''1'')), (ascii ''ssml'', Some (ascii ''<speak>one</speak>''))] \<and>
   fst (process_row (ex_args\<lparr>use_ffmpeg := True, delete_original_wav := True\<rparr>) ex_env None
     \<lparr>generated = 0, skipped = 0, seen_ids = {}, lworld = ex_world\<rparr>
     [(ascii ''id'', Some (ascii ''1'')), (ascii ''ssml'', Some (ascii ''<speak>one</speak>''))]) = None \<and>
   files ex_world (mkstemp ex_env (files ex_world)) = None \<and>
   files (lworld (snd (process_row (ex_args\<lparr>use_ffmpeg := True, delete_original_wav := True\<rparr>) ex_env None
     \<lparr>generated = 0, skipped = 0, seen_ids = {}, lworld = ex_world\<rparr>
     [(ascii ''id'', Some (ascii ''1'')), (ascii ''ssml'', Some (ascii ''<speak>one</speak>''))]))) (ascii ''out_audio/1.mp3'') \<noteq> None \<and>
   files (lworld (snd (process_row (ex_args\<lparr>use_ffmpeg := True, delete_original_wav := True\<rparr>) ex_env None
     \<lparr>generated = 0, skipped = 0, seen_ids = {}, lworld = ex_world\<rparr>
     [(ascii ''id'', Some (ascii ''1'')), (ascii ''ssml'', Some (ascii ''<speak>one</speak>''))]))) (ascii ''out_audio/1.wav'') = None"
proof -
  let ?a = "ex_args\<lparr>use_ffmpeg := True, delete_original_wav := True\<rparr>"
  let ?r = "[(ascii ''id'', Some (ascii ''1'')), (ascii ''ssml'', Some (ascii ''<speak>one</speak>''))]"
  let ?st = "\<lparr>generated = 0, skipped = 0, seen_ids = {}, lworld = ex_world\<rparr>"
  have h1: "is_submitted ?a None ?r"
    by (simp add: is_submitted_def eval_defs)
  have h0: "fst (process_row ?a ex_env None ?st ?r) = None"
    by (simp add: eval_defs)
  then have h2: "process_row ?a ex_env None ?st ?r = (None, snd (process_row ?a ex_env None ?st ?r))"
    by (simp add: prod_eq_iff)
  have h3: "files (lworld ?st) (mkstemp ex_env (files (lworld ?st))) = None"
    by (simp add: ex_world_def)
  have out: "joinpath (outdir ?a) (row_id_of ?a ?r @ ascii ''.'' @ fmt_name (format ?a)) = ascii ''out_audio/1.mp3''"
    by (simp add: eval_defs)
  have h4: "mkstemp ex_env (files (lworld ?st))
      \<noteq> joinpath (outdir ?a) (row_id_of ?a ?r @ ascii ''.'' @ fmt_name (format ?a))"
    unfolding out by (simp add: ex_env_def ascii_def)
  have d: "delete_original_wav ?a" by simp
  from row_output_files [OF h1 h2 h3 h4] d
  have "files (lworld (snd (process_row ?a ex_env None ?st ?r))) (ascii ''out_audio/1.mp3'') \<noteq> None"
    and "\<forall>p. p \<noteq> (ascii ''out_audio/1.mp3'') \<longrightarrow>
           files (lworld (snd (process_row ?a ex_env None ?st ?r))) p = files (lworld ?st) p"
    unfolding out by blast+
  then have "files (lworld (snd (process_row ?a ex_env None ?st ?r))) (ascii ''out_audio/1.mp3'') \<noteq> None"
    and "files (lworld (snd (process_row ?a ex_env None ?st ?r))) (ascii ''out_audio/1.wav'') = None"
    by (simp_all add: ex_world_def)
  with h1 h0 h3 show ?thesis by simp
qed

text \<open>
  Claim C2 on the one-row dataset, mp3 with \<open>--use-ffmpeg\<close>. Without \<open>--delete-original-wav\<close>
  the conversion command is \<open>ffmpeg -y -i out_audio/1.wav out_audio/1.mp3\<close>, with no codec
  or quality option; with \<open>--delete-original-wav\<close> it is the mp3 template
  \<open>-codec:a libmp3lame -q:a 2\<close> on the temporary file; and the mp3 template on the kept
  intermediate file would have been the third command below.
\<close>

theorem keep_path_command_lacks_codec_options:
  "subprocesses (trace (snd (main (ex_args\<lparr>use_ffmpeg := True\<rparr>)
      (ex_env\<lparr>csv_rows := [[(ascii ''id'', Some (ascii ''1'')), (ascii ''ssml'', Some (ascii ''<speak>one</speak>''))]]\<rparr>) ex_world)))
     = [[ascii ''ffmpeg'', ascii ''-version''],
        [ascii ''ffmpeg'', ascii ''-y'', ascii ''-i'', ascii ''out_audio/1.wav'', ascii ''out_audio/1.mp3'']] \<and>
   subprocesses (trace (snd (main (ex_args\<lparr>use_ffmpeg := True, delete_original_wav := True\<rparr>)
      (ex_env\<lparr>csv_rows := [[(ascii ''id'', Some (ascii ''1'')), (ascii ''ssml'', Some (ascii ''<speak>one</speak>''))]]\<rparr>) ex_world)))
     = [[ascii ''ffmpeg'', ascii ''-version''],
        [ascii ''ffmpeg'', ascii ''-y'', ascii ''-i'', ascii ''/tmp/tmpk3v9x2ab.wav'', ascii ''-codec:a'', ascii ''libmp3lame'', ascii ''-q:a'', ascii ''2'',
         ascii ''out_audio/1.mp3'']] \<and>
   ffmpeg_cmd (ascii ''mp3'') (ascii ''out_audio/1.wav'') (ascii ''out_audio/1.mp3'')
     = Inr [ascii ''ffmpeg'', ascii ''-y'', ascii ''-i'', ascii ''out_audio/1.wav'', ascii ''-codec:a'', ascii ''libmp3lame'', ascii ''-q:a'', ascii ''2'',
            ascii ''out_audio/1.mp3'']"
  by (simp add: eval_defs)

text \<open>
  Claim C8. For format wav without \<open>--use-ffmpeg\<close>, when the service answers a submitted row
  with status 200 and a JSON body whose \<open>audioContent\<close> string decodes to the bytes \<open>b\<close>, the
  row is processed without an exception, the file \<open>outdir / (id.wav)\<close> holds exactly \<open>b\<close>, no
  other file is changed and no subprocess is run.
\<close>

theorem direct_wav_bytes_are_decoded_payload:
  assumes "format a = Wav" and "\<not> use_ffmpeg a" and "is_submitted a wanted r"
    and "http_post env (trace (lworld st)) (tts_url (api_key a))
           (tts_payload (voice a) (lang a) (ssml_of a r)) = Inr resp"
    and "status_code resp = 200" and "json_body resp = Some j"
    and "subscript j (ascii ''audioContent'') = Inr (JString s)" and "b64decode env s = Some b"
  shows "fst (process_row a env wanted st r) = None \<and>
         files (lworld (snd (process_row a env wanted st r)))
           (joinpath (outdir a) (row_id_of a r @ ascii ''.wav'')) = Some b \<and>
         (\<forall>p. p \<noteq> joinpath (outdir a) (row_id_of a r @ ascii ''.wav'') \<longrightarrow>
              files (lworld (snd (process_row a env wanted st r))) p = files (lworld st) p) \<and>
         subprocesses (trace (lworld (snd (process_row a env wanted st r))))
           = subprocesses (trace (lworld st))"
proof -
  let ?syn = "synthesize_ssml_wav env (api_key a) (voice a) (lang a) (ssml_of a r) (lworld st)"
  have "fst ?syn = Inr b"
    using assms(4-8) by (rule synthesize_success)
  moreover have "snd ?syn = emit (HttpPost (tts_url (api_key a))
      (tts_payload (voice a) (lang a) (ssml_of a r))) (lworld st)"
    by (rule synthesize_world)
  ultimately have syn: "?syn = (Inr b, emit (HttpPost (tts_url (api_key a))
      (tts_payload (voice a) (lang a) (ssml_of a r))) (lworld st))"
    by (simp add: prod_eq_iff)
  show ?thesis
    using assms(1,2)
    by (simp add: process_row_submitted [OF assms(3)] syn write_output_def write_direct_wav_def
        emit_def subprocesses_append Let_def)
qed

theorem direct_wav_bytes_are_decoded_payload_witness:
  "format (ex_args\<lparr>format := Wav\<rparr>) = Wav \<and> \<not> use_ffmpeg (ex_args\<lparr>format := Wav\<rparr>) \<and>
   is_submitted (ex_args\<lparr>format := Wav\<rparr>) None [(ascii ''id'', Some (ascii ''1'')), (ascii ''ssml'', Some (ascii ''<speak>one</speak>''))] \<and>
   status_code ex_response = 200 \<and>
   subscript (JObject [(ascii ''audioContent'', JString (ascii ''UklGRg==''))]) (ascii ''audioContent'')
     = Inr (JString (ascii ''UklGRg=='')) \<and>
   b64decode ex_env (ascii ''UklGRg=='') = Some [0x52, 0x49, 0x46, 0x46] \<and>
   fst (process_row (ex_args\<lparr>format := Wav\<rparr>) ex_env None
     \<lparr>generated = 0, skipped = 0, seen_ids = {}, lworld = ex_world\<rparr>
     [(ascii ''id'', Some (ascii ''1'')), (ascii ''ssml'', Some (ascii ''<speak>one</speak>''))]) = None \<and>
   files (lworld (snd (process_row (ex_args\<lparr>format := Wav\<rparr>) ex_env None
     \<lparr>generated = 0, skipped = 0, seen_ids = {}, lworld = ex_world\<rparr>
     [(ascii ''id'', Some (ascii ''1'')), (ascii ''ssml'', Some (ascii ''<speak>one</speak>''))]))) (ascii ''out_audio/1.wav'')
     = Some [0x52, 0x49, 0x46, 0x46]"
proof -
  let ?a = "ex_args\<lparr>format := Wav\<rparr>"
  let ?r = "[(ascii ''id'', Some (ascii ''1'')), (ascii ''ssml'', Some (ascii ''<speak>one</speak>''))]"
  let ?st = "\<lparr>generated = 0, skipped = 0, seen_ids = {}, lworld = ex_world\<rparr>"
  have h1: "format ?a = Wav" and h2: "\<not> use_ffmpeg ?a"
    by (simp_all add: ex_args_def)
  have h3: "is_submitted ?a None ?r"
    by (simp add: is_submitted_def eval_defs)
  have h4: "http_post ex_env (trace (lworld ?st)) (tts_url (api_key ?a))
           (tts_payload (voice ?a) (lang ?a) (ssml_of ?a ?r)) = Inr ex_response"
    by (simp add: ex_env_def)
  have h5: "status_code ex_response = 200"
    and h6: "json_body ex_response = Some (JObject [(ascii ''audioContent'', JString (ascii ''UklGRg==''))])"
    by (simp_all add: ex_response_def)
  have h7: "subscript (JObject [(ascii ''audioContent'', JString (ascii ''UklGRg==''))]) (ascii ''audioContent'')
     = Inr (JString (ascii ''UklGRg==''))"
    by simp
  have h8: "b64decode ex_env (ascii ''UklGRg=='') = Some [0x52, 0x49, 0x46, 0x46]"
    by (simp add: ex_env_def ex_b64decode_def)
  have out: "joinpath (outdir ?a) (row_id_of ?a ?r @ ascii ''.wav'') = ascii ''out_audio/1.wav''"
    by (simp add: eval_defs)
  from direct_wav_bytes_are_decoded_payload [OF h1 h2 h3 h4 h5 h6 h7 h8]
  have "fst (process_row ?a ex_env None ?st ?r) = None"
    and "files (lworld (snd (process_row ?a ex_env None ?st ?r))) (ascii ''out_audio/1.wav'')
      = Some [0x52, 0x49, 0x46, 0x46]"
    unfolding out by blast+
  with h1 h2 h3 h5 h7 h8 show ?thesis by simp
qed

subsection \<open>The loop over the rows\<close>

lemma output_event_projections:
  assumes "list_all output_event evs"
  shows "http_posts evs = []" and "not_found_reports evs = []" and "summaries evs = []"
  using assms
proof (induction evs)
  case Nil
  { case 1 show ?case by simp }
  { case 2 show ?case by simp }
  { case 3 show ?case by simp }
next
  case (Cons e evs)
  { case 1 with Cons show ?case by (cases e rule: output_event.cases) simp_all }
  { case 2 with Cons show ?case by (cases e rule: output_event.cases) simp_all }
  { case 3 with Cons show ?case by (cases e rule: output_event.cases) simp_all }
qed

lemma run_checked_trace:
  "trace (snd (run_checked env cmd w)) = trace w @ [Subprocess cmd]"
  by (simp add: run_checked_def emit_def Let_def split: option.splits)

lemma convert_trace:
  "\<exists>evs. trace (snd (convert_wav_bytes_with_ffmpeg env b out f d w)) = trace w @ evs \<and>
         list_all output_event evs"
proof (cases "ffmpeg_cmd f (mkstemp env (files w)) out")
  case (Inl e)
  then show ?thesis
    by (simp add: convert_wav_bytes_with_ffmpeg_def Let_def)
next
  case (Inr cmd)
  let ?w2 = "w\<lparr>files := (files w)(mkstemp env (files w) \<mapsto> b)\<rparr>"
  have "trace (snd (run_checked env cmd ?w2)) = trace w @ [Subprocess cmd]"
    by (simp add: run_checked_trace)
  with Inr have "trace (snd (convert_wav_bytes_with_ffmpeg env b out f d w)) = trace w @ [Subprocess cmd]"
    by (auto simp: convert_wav_bytes_with_ffmpeg_def Let_def split: prod.splits)
  then show ?thesis by simp
qed

lemma write_output_trace:
  "\<exists>evs. trace (snd (write_output a env rid b w)) = trace w @ evs \<and> list_all output_event evs"
proof -
  let ?wav = "joinpath (outdir a) (rid @ ascii ''.wav'')"
  let ?out = "joinpath (outdir a) (rid @ ascii ''.'' @ fmt_name (format a))"
  consider (direct) "format a = Wav" "\<not> use_ffmpeg a"
    | (conv) "format a = Wav" "use_ffmpeg a"
    | (del) "format a \<noteq> Wav" "delete_original_wav a"
    | (keep) "format a \<noteq> Wav" "\<not> delete_original_wav a"
    by blast
  then show ?thesis
  proof cases
    case direct
    then show ?thesis
      by (simp add: write_output_def write_direct_wav_def emit_def Let_def)
  next
    case conv
    obtain evs where "trace (snd (convert_wav_bytes_with_ffmpeg env b ?wav (ascii ''wav'') True w)) = trace w @ evs"
      and "list_all output_event evs"
      using convert_trace by blast
    with conv show ?thesis
      by (auto simp: write_output_def emit_def Let_def split: prod.splits option.splits)
  next
    case del
    obtain evs where "trace (snd (convert_wav_bytes_with_ffmpeg env b ?out (fmt_name (format a)) True w)) = trace w @ evs"
      and "list_all output_event evs"
      using convert_trace by blast
    with del show ?thesis
      by (auto simp: write_output_def emit_def Let_def split: prod.splits option.splits)
  next
    case keep
    have "trace (snd (run_checked env [ascii ''ffmpeg'', ascii ''-y'', ascii ''-i'', ?wav, ?out] (write_direct_wav b ?wav w)))
        = trace w @ [Subprocess [ascii ''ffmpeg'', ascii ''-y'', ascii ''-i'', ?wav, ?out]]"
      by (simp add: run_checked_trace write_direct_wav_def)
    with keep show ?thesis
      by (auto simp: write_output_def emit_def Let_def split: prod.splits option.splits)
  qed
qed


lemma process_row_not_submitted:
  assumes "\<not> is_submitted a wanted r"
  shows "process_row a env wanted st r =
     (None,
      if row_id_of a r = [] then st\<lparr>skipped := skipped st + 1\<rparr>
      else if filtered_out wanted (row_id_of a r)
        then st\<lparr>seen_ids := insert (row_id_of a r) (seen_ids st)\<rparr>
      else st\<lparr>seen_ids := insert (row_id_of a r) (seen_ids st), skipped := skipped st + 1,
              lworld := emit (Print (SkippingEmptySsml (row_id_of a r))) (lworld st)\<rparr>)"
  using assms by (auto simp: process_row_def is_submitted_def Let_def)

lemma process_row_trace:
  "\<exists>evs. trace (lworld (snd (process_row a env wanted st r))) = trace (lworld st) @ evs \<and>
         http_posts evs = (if is_submitted a wanted r then [tts_request a r] else []) \<and>
         not_found_reports evs = [] \<and> summaries evs = []"
proof (cases "is_submitted a wanted r")
  case False
  then show ?thesis
    by (simp add: process_row_not_submitted emit_def)
next
  case True
  let ?req = "HttpPost (tts_url (api_key a)) (tts_payload (voice a) (lang a) (ssml_of a r))"
  let ?syn = "synthesize_ssml_wav env (api_key a) (voice a) (lang a) (ssml_of a r) (lworld st)"
  have snd: "snd ?syn = emit ?req (lworld st)" by (rule synthesize_world)
  show ?thesis
  proof (cases "fst ?syn")
    case (Inl e)
    with snd have "?syn = (Inl e, emit ?req (lworld st))" by (simp add: prod_eq_iff)
    with True show ?thesis
      by (simp add: process_row_submitted Let_def emit_def tts_request_def)
  next
    case (Inr b)
    with snd have syn: "?syn = (Inr b, emit ?req (lworld st))" by (simp add: prod_eq_iff)
    obtain evs where evs: "trace (snd (write_output a env (row_id_of a r) b (emit ?req (lworld st))))
        = trace (emit ?req (lworld st)) @ evs" and oe: "list_all output_event evs"
      using write_output_trace by blast
    have "trace (lworld (snd (process_row a env wanted st r))) = trace (lworld st) @ (?req # evs)"
      using True syn evs
      by (auto simp: process_row_submitted Let_def emit_def split: prod.splits option.splits)
    moreover have "http_posts (?req # evs) = [tts_request a r]"
      and "not_found_reports (?req # evs) = []" and "summaries (?req # evs) = []"
      using output_event_projections [OF oe] by (simp_all add: tts_request_def)
    ultimately show ?thesis using True by auto
  qed
qed

lemma process_row_counters:
  assumes "fst (process_row a env wanted st r) = None"
  shows "skipped (snd (process_row a env wanted st r))
           = skipped st + (if is_skipped a wanted r then 1 else 0)"
    and "generated (snd (process_row a env wanted st r))
           = generated st + (if is_submitted a wanted r then 1 else 0)"
    and "seen_ids (snd (process_row a env wanted st r))
           = seen_ids st \<union> ({row_id_of a r} - {[]})"
proof -
  have "skipped (snd (process_row a env wanted st r))
           = skipped st + (if is_skipped a wanted r then 1 else 0) \<and>
        generated (snd (process_row a env wanted st r))
           = generated st + (if is_submitted a wanted r then 1 else 0) \<and>
        seen_ids (snd (process_row a env wanted st r))
           = seen_ids st \<union> ({row_id_of a r} - {[]})"
  proof (cases "is_submitted a wanted r")
    case False
    then show ?thesis
      by (auto simp: process_row_not_submitted is_skipped_def is_submitted_def)
  next
    case True
    then have ns: "\<not> is_skipped a wanted r" and rid: "row_id_of a r \<noteq> []"
      by (auto simp: is_skipped_def is_submitted_def)
    obtain st' where "process_row a env wanted st r = (None, st')"
      using assms by (cases "process_row a env wanted st r") auto
    from process_row_submitted_ok [OF True this] this ns rid True show ?thesis
      by auto
  qed
  then show "skipped (snd (process_row a env wanted st r))
           = skipped st + (if is_skipped a wanted r then 1 else 0)"
    and "generated (snd (process_row a env wanted st r))
           = generated st + (if is_submitted a wanted r then 1 else 0)"
    and "seen_ids (snd (process_row a env wanted st r))
           = seen_ids st \<union> ({row_id_of a r} - {[]})"
    by blast+
qed

lemma run_rows_trace:
  "\<exists>k evs. k \<le> length rows \<and>
     trace (lworld (snd (run_rows a env wanted st rows))) = trace (lworld st) @ evs \<and>
     http_posts evs = map (tts_request a) (filter (is_submitted a wanted) (take k rows)) \<and>
     not_found_reports evs = [] \<and> summaries evs = [] \<and>
     (fst (run_rows a env wanted st rows) = None \<longrightarrow> k = length rows)"
proof (induction rows arbitrary: st)
  case Nil
  show ?case by simp
next
  case (Cons r rows)
  obtain res st1 where pr: "process_row a env wanted st r = (res, st1)"
    by (cases "process_row a env wanted st r")
  from process_row_trace [of a env wanted st r]
  obtain evs1 where "trace (lworld (snd (process_row a env wanted st r))) = trace (lworld st) @ evs1"
    and p1: "http_posts evs1 = (if is_submitted a wanted r then [tts_request a r] else [])"
    and n1: "not_found_reports evs1 = []" and s1: "summaries evs1 = []"
    by (elim exE conjE)
  then have e1: "trace (lworld st1) = trace (lworld st) @ evs1"
    by (simp add: pr)
  show ?case
  proof (cases res)
    case (Some e)
    with pr have rr: "run_rows a env wanted st (r # rows) = (Some e, st1)" by simp
    have "(1::nat) \<le> length (r # rows)" by simp
    moreover have "trace (lworld (snd (run_rows a env wanted st (r # rows)))) = trace (lworld st) @ evs1"
      unfolding rr using e1 by simp
    moreover have "http_posts evs1
        = map (tts_request a) (filter (is_submitted a wanted) (take 1 (r # rows)))"
      using p1 by simp
    moreover have "fst (run_rows a env wanted st (r # rows)) = None \<longrightarrow> 1 = length (r # rows)"
      unfolding rr by simp
    ultimately show ?thesis using n1 s1
      by (intro exI [of _ "1::nat"] exI [of _ evs1] conjI)
  next
    case None
    with pr have rr: "run_rows a env wanted st (r # rows) = run_rows a env wanted st1 rows" by simp
    from Cons.IH [of st1] obtain k evs where k: "k \<le> length rows"
      and e: "trace (lworld (snd (run_rows a env wanted st1 rows))) = trace (lworld st1) @ evs"
      and p: "http_posts evs = map (tts_request a) (filter (is_submitted a wanted) (take k rows))"
      and n: "not_found_reports evs = []" and s: "summaries evs = []"
      and c: "fst (run_rows a env wanted st1 rows) = None \<longrightarrow> k = length rows"
      by (elim exE conjE)
    have "Suc k \<le> length (r # rows)" using k by simp
    moreover have "trace (lworld (snd (run_rows a env wanted st (r # rows))))
        = trace (lworld st) @ (evs1 @ evs)"
      unfolding rr e e1 by simp
    moreover have "http_posts (evs1 @ evs)
        = map (tts_request a) (filter (is_submitted a wanted) (take (Suc k) (r # rows)))"
      unfolding http_posts_append p p1 by simp
    moreover have "not_found_reports (evs1 @ evs) = []"
      unfolding not_found_reports_append n n1 by simp
    moreover have "summaries (evs1 @ evs) = []"
      unfolding summaries_append s s1 by simp
    moreover have "fst (run_rows a env wanted st (r # rows)) = None \<longrightarrow> Suc k = length (r # rows)"
      unfolding rr using c by simp
    ultimately show ?thesis
      by (intro exI [of _ "Suc k"] exI [of _ "evs1 @ evs"] conjI)
  qed
qed

lemma run_rows_counters:
  assumes "fst (run_rows a env wanted st rows) = None"
  shows "skipped (snd (run_rows a env wanted st rows))
           = skipped st + length (filter (is_skipped a wanted) rows) \<and>
         generated (snd (run_rows a env wanted st rows))
           = generated st + length (filter (is_submitted a wanted) rows) \<and>
         seen_ids (snd (run_rows a env wanted st rows))
           = seen_ids st \<union> (row_id_of a ` set rows - {[]})"
  using assms
proof (induction rows arbitrary: st)
  case Nil
  show ?case by simp
next
  case (Cons r rows)
  obtain res st1 where pr: "process_row a env wanted st r = (res, st1)"
    by (cases "process_row a env wanted st r")
  with Cons.prems have res: "res = None" by (cases res) auto
  with pr have rr: "run_rows a env wanted st (r # rows) = run_rows a env wanted st1 rows" by simp
  from pr res have "fst (process_row a env wanted st r) = None" by simp
  from process_row_counters [OF this] pr
  have c1: "skipped st1 = skipped st + (if is_skipped a wanted r then 1 else 0)"
    "generated st1 = generated st + (if is_submitted a wanted r then 1 else 0)"
    "seen_ids st1 = seen_ids st \<union> ({row_id_of a r} - {[]})"
    by simp_all
  from Cons.prems rr have "fst (run_rows a env wanted st1 rows) = None" by simp
  from Cons.IH [OF this] c1 show ?case
    unfolding rr by auto
qed

subsection \<open>The whole run\<close>

lemma main_shape:
  "(\<exists>n evs. main a env w = (SysExit n, w\<lparr>trace := trace w @ evs\<rparr>) \<and>
       http_posts evs = [] \<and> not_found_reports evs = [] \<and> summaries evs = []) \<or>
   (\<exists>e evs. main a env w = (Uncaught e, w\<lparr>trace := trace w @ evs\<rparr>) \<and>
       http_posts evs = [] \<and> not_found_reports evs = [] \<and> summaries evs = []) \<or>
   (\<exists>evs. http_posts evs = [] \<and> not_found_reports evs = [] \<and> summaries evs = [] \<and>
      main a env w =
        (case run_rows a env (parse_ids (ids a))
                \<lparr>generated = 0, skipped = 0, seen_ids = {}, lworld = w\<lparr>trace := trace w @ evs\<rparr>\<rparr>
                (csv_rows env) of
           (Some e, st) \<Rightarrow> (Uncaught e, lworld st)
         | (None, st) \<Rightarrow>
             (Completed,
              emit (Print (DoneSummary (generated st) (skipped st)))
                (report_not_found (parse_ids (ids a)) st))))"
proof -
  let ?probe = "if use_ffmpeg a then [Subprocess [ascii ''ffmpeg'', ascii ''-version'']] else []"
  have pp: "http_posts ?probe = []" "not_found_reports ?probe = []" "summaries ?probe = []"
    by simp_all
  consider (nocsv) "\<not> csv_exists env"
    | (lossy) "csv_exists env" "format a \<noteq> Wav" "\<not> use_ffmpeg a"
    | (missing) "csv_exists env" "use_ffmpeg a" "\<not> ffmpeg_version_ok env"
    | (past) "csv_exists env" "format a = Wav \<or> use_ffmpeg a"
        "use_ffmpeg a \<longrightarrow> ffmpeg_version_ok env"
    by blast
  then show ?thesis
  proof cases
    case nocsv
    have "main a env w = (SysExit 1, w\<lparr>trace := trace w @ [PrintErr (CsvNotFound (csv a))]\<rparr>)"
      using nocsv by (simp add: main_no_csv emit_def)
    moreover have "http_posts [PrintErr (CsvNotFound (csv a))] = []"
      "not_found_reports [PrintErr (CsvNotFound (csv a))] = []"
      "summaries [PrintErr (CsvNotFound (csv a))] = []" by simp_all
    ultimately show ?thesis by (intro disjI1 exI conjI)
  next
    case lossy
    have "main a env w = (SysExit 2, w\<lparr>trace := trace w @ [PrintErr NeedFfmpeg]\<rparr>)"
      using lossy by (simp add: main_need_ffmpeg emit_def)
    moreover have "http_posts [PrintErr NeedFfmpeg] = []"
      "not_found_reports [PrintErr NeedFfmpeg] = []"
      "summaries [PrintErr NeedFfmpeg] = []" by simp_all
    ultimately show ?thesis by (intro disjI1 exI conjI)
  next
    case missing
    let ?evs = "[Subprocess [ascii ''ffmpeg'', ascii ''-version''], PrintErr FfmpegNotFound]"
    have "main a env w = (SysExit 3, w\<lparr>trace := trace w @ ?evs\<rparr>)"
      using missing by (simp add: main_ffmpeg_missing emit_def)
    moreover have "http_posts ?evs = []" "not_found_reports ?evs = []" "summaries ?evs = []"
      by simp_all
    ultimately show ?thesis by (intro disjI1 exI conjI)
  next
    case past
    have w1: "(if use_ffmpeg a then emit (Subprocess [ascii ''ffmpeg'', ascii ''-version'']) w else w)
        = w\<lparr>trace := trace w @ ?probe\<rparr>"
      by (simp add: emit_def)
    show ?thesis
    proof (cases "\<exists>fs. csv_fieldnames env = Some fs \<and> fs \<noteq> [] \<and> id_col a \<in> set fs \<and> ssml_col a \<in> set fs")
      case True
      then obtain fs where "csv_fieldnames env = Some fs" "fs \<noteq> []" "id_col a \<in> set fs"
        "ssml_col a \<in> set fs" by (elim exE conjE)
      with past have "main a env w =
        (case run_rows a env (parse_ids (ids a))
                \<lparr>generated = 0, skipped = 0, seen_ids = {}, lworld = w\<lparr>trace := trace w @ ?probe\<rparr>\<rparr>
                (csv_rows env) of
           (Some e, st) \<Rightarrow> (Uncaught e, lworld st)
         | (None, st) \<Rightarrow>
             (Completed,
              emit (Print (DoneSummary (generated st) (skipped st)))
                (report_not_found (parse_ids (ids a)) st)))"
        by (cases "format a") (auto simp: main_def ffmpeg_exists_def emit_def Let_def)
      with pp show ?thesis by (intro disjI2 exI conjI)
    next
      case False
      with past have "\<exists>e. main a env w = (Uncaught e, w\<lparr>trace := trace w @ ?probe\<rparr>)"
        by (cases "format a") (auto simp: main_def ffmpeg_exists_def emit_def Let_def split: option.splits)
      then obtain e where "main a env w = (Uncaught e, w\<lparr>trace := trace w @ ?probe\<rparr>)" ..
      with pp show ?thesis by (intro disjI2 disjI1 exI conjI)
    qed
  qed
qed


lemma report_not_found_trace:
  "trace (report_not_found wanted st) =
     trace (lworld st) @
       (case wanted of
          None \<Rightarrow> []
        | Some W \<Rightarrow>
            if sorted_list_of_set (W - seen_ids st) \<noteq> []
            then [Print (IdsNotFound (sorted_list_of_set (W - seen_ids st)))] else [])"
  by (simp add: report_not_found_def emit_def Let_def split: option.splits)

lemma main_requests:
  "\<exists>k. k \<le> length (csv_rows env) \<and>
     http_posts (trace (snd (main a env w)))
       = http_posts (trace w) @
         map (tts_request a) (filter (is_submitted a (parse_ids (ids a))) (take k (csv_rows env))) \<and>
     (fst (main a env w) = Completed \<longrightarrow> k = length (csv_rows env))"
proof -
  let ?P = "\<lambda>k. k \<le> length (csv_rows env) \<and>
     http_posts (trace (snd (main a env w)))
       = http_posts (trace w) @
         map (tts_request a) (filter (is_submitted a (parse_ids (ids a))) (take k (csv_rows env))) \<and>
     (fst (main a env w) = Completed \<longrightarrow> k = length (csv_rows env))"
  from main_shape [of a env w] consider
    (exit) n evs where "main a env w = (SysExit n, w\<lparr>trace := trace w @ evs\<rparr>)" "http_posts evs = []"
    | (raise) e evs where "main a env w = (Uncaught e, w\<lparr>trace := trace w @ evs\<rparr>)" "http_posts evs = []"
    | (run) evs where "http_posts evs = []"
        "main a env w =
        (case run_rows a env (parse_ids (ids a))
                \<lparr>generated = 0, skipped = 0, seen_ids = {}, lworld = w\<lparr>trace := trace w @ evs\<rparr>\<rparr>
                (csv_rows env) of
           (Some e, st) \<Rightarrow> (Uncaught e, lworld st)
         | (None, st) \<Rightarrow>
             (Completed,
              emit (Print (DoneSummary (generated st) (skipped st)))
                (report_not_found (parse_ids (ids a)) st)))"
    by (elim disjE exE conjE)
  then show ?thesis
  proof cases
    case exit
    then have "?P 0" by (simp add: http_posts_append)
    then show ?thesis by (rule exI)
  next
    case raise
    then have "?P 0" by (simp add: http_posts_append)
    then show ?thesis by (rule exI)
  next
    case run
    let ?st0 = "\<lparr>generated = 0, skipped = 0, seen_ids = {}, lworld = w\<lparr>trace := trace w @ evs\<rparr>\<rparr>"
    let ?R = "run_rows a env (parse_ids (ids a)) ?st0 (csv_rows env)"
    from run_rows_trace [of "csv_rows env" a env "parse_ids (ids a)" ?st0]
    obtain k evs' where k: "k \<le> length (csv_rows env)"
      and t: "trace (lworld (snd ?R)) = trace (lworld ?st0) @ evs'"
      and p: "http_posts evs' = map (tts_request a)
                (filter (is_submitted a (parse_ids (ids a))) (take k (csv_rows env)))"
      and c: "fst ?R = None \<longrightarrow> k = length (csv_rows env)"
      by (elim exE conjE)
    obtain res st where R: "?R = (res, st)" by (cases ?R)
    from t R have t': "trace (lworld st) = (trace w @ evs) @ evs'" by simp
    have "?P k"
    proof (cases res)
      case None
      with run(2) R have m: "main a env w = (Completed,
              emit (Print (DoneSummary (generated st) (skipped st)))
                (report_not_found (parse_ids (ids a)) st))" by simp
      from c R None have "k = length (csv_rows env)" by simp
      moreover have "http_posts (trace (snd (main a env w)))
          = http_posts (trace w) @ map (tts_request a)
              (filter (is_submitted a (parse_ids (ids a))) (take k (csv_rows env)))"
        unfolding m
        by (simp add: emit_def report_not_found_trace t' http_posts_append run(1) p
            split: option.splits)
      ultimately show ?thesis using k by simp
    next
      case (Some e)
      with run(2) R have m: "main a env w = (Uncaught e, lworld st)" by simp
      show ?thesis unfolding m using k
        by (simp add: t' http_posts_append run(1) p)
    qed
    then show ?thesis by (rule exI)
  qed
qed

lemma main_completed:
  assumes "fst (main a env w) = Completed"
  shows "summaries (trace (snd (main a env w)))
           = summaries (trace w) @
             [(length (filter (is_submitted a (parse_ids (ids a))) (csv_rows env)),
               length (filter (is_skipped a (parse_ids (ids a))) (csv_rows env)))]"
    and "not_found_reports (trace (snd (main a env w)))
           = not_found_reports (trace w) @
             (case parse_ids (ids a) of
                None \<Rightarrow> []
              | Some W \<Rightarrow>
                  if sorted_list_of_set (W - (row_id_of a ` set (csv_rows env) - {[]})) \<noteq> []
                  then [sorted_list_of_set (W - (row_id_of a ` set (csv_rows env) - {[]}))]
                  else [])"
proof -
  from main_shape [of a env w] assms obtain evs where
    ev: "http_posts evs = []" "not_found_reports evs = []" "summaries evs = []"
    and m0: "main a env w =
        (case run_rows a env (parse_ids (ids a))
                \<lparr>generated = 0, skipped = 0, seen_ids = {}, lworld = w\<lparr>trace := trace w @ evs\<rparr>\<rparr>
                (csv_rows env) of
           (Some e, st) \<Rightarrow> (Uncaught e, lworld st)
         | (None, st) \<Rightarrow>
             (Completed,
              emit (Print (DoneSummary (generated st) (skipped st)))
                (report_not_found (parse_ids (ids a)) st)))"
    by (elim disjE exE conjE) simp_all
  let ?st0 = "\<lparr>generated = 0, skipped = 0, seen_ids = {}, lworld = w\<lparr>trace := trace w @ evs\<rparr>\<rparr>"
  let ?R = "run_rows a env (parse_ids (ids a)) ?st0 (csv_rows env)"
  obtain res st where R: "?R = (res, st)" by (cases ?R)
  with m0 assms have res: "res = None" by (cases res) simp_all
  with m0 R have m: "main a env w = (Completed,
              emit (Print (DoneSummary (generated st) (skipped st)))
                (report_not_found (parse_ids (ids a)) st))" by simp
  from run_rows_trace [of "csv_rows env" a env "parse_ids (ids a)" ?st0]
  obtain k evs' where "trace (lworld (snd ?R)) = trace (lworld ?st0) @ evs'"
    and n: "not_found_reports evs' = []" and s: "summaries evs' = []"
    by (elim exE conjE)
  with R have t': "trace (lworld st) = (trace w @ evs) @ evs'" by simp
  from R res have "fst ?R = None" by simp
  from run_rows_counters [OF this] R
  have cnt: "skipped st = length (filter (is_skipped a (parse_ids (ids a))) (csv_rows env))"
    "generated st = length (filter (is_submitted a (parse_ids (ids a))) (csv_rows env))"
    "seen_ids st = row_id_of a ` set (csv_rows env) - {[]}"
    by simp_all
  show "summaries (trace (snd (main a env w)))
           = summaries (trace w) @
             [(length (filter (is_submitted a (parse_ids (ids a))) (csv_rows env)),
               length (filter (is_skipped a (parse_ids (ids a))) (csv_rows env)))]"
    unfolding m
    by (simp add: emit_def report_not_found_trace t' summaries_append ev s cnt split: option.splits)
  show "not_found_reports (trace (snd (main a env w)))
           = not_found_reports (trace w) @
             (case parse_ids (ids a) of
                None \<Rightarrow> []
              | Some W \<Rightarrow>
                  if sorted_list_of_set (W - (row_id_of a ` set (csv_rows env) - {[]})) \<noteq> []
                  then [sorted_list_of_set (W - (row_id_of a ` set (csv_rows env) - {[]}))]
                  else [])"
    unfolding m
    by (simp add: emit_def report_not_found_trace t' not_found_reports_append ev n cnt
        split: option.splits)
qed


text \<open>
  Claim C6, as the code has it. In every run the requests sent are exactly those of the
  rows, in file order up to the point the run got to, whose identifier is not empty, that
  pass the identifier filter and whose markup is not empty: a row with an empty identifier
  or empty markup (after stripping) is never submitted. When the run completes, the skipped
  count of the closing line is the number of rows whose identifier is empty, or whose
  identifier is not excluded by the filter and whose markup is empty; a row with empty
  markup that the filter excludes is not counted.
\<close>

theorem empty_rows_not_submitted_and_counted:
  "(\<exists>k. k \<le> length (csv_rows env) \<and>
      http_posts (trace (snd (main a env w)))
        = http_posts (trace w) @
          map (tts_request a)
            (filter (\<lambda>r. row_id_of a r \<noteq> [] \<and> \<not> filtered_out (parse_ids (ids a)) (row_id_of a r) \<and>
                          ssml_of a r \<noteq> [])
               (take k (csv_rows env))) \<and>
      (fst (main a env w) = Completed \<longrightarrow> k = length (csv_rows env))) \<and>
   (fst (main a env w) = Completed \<longrightarrow>
      map snd (summaries (trace (snd (main a env w))))
        = map snd (summaries (trace w)) @
          [length (filter (\<lambda>r. row_id_of a r = [] \<or>
                               (\<not> filtered_out (parse_ids (ids a)) (row_id_of a r) \<and> ssml_of a r = []))
                     (csv_rows env))])"
proof -
  have sub: "is_submitted a (parse_ids (ids a))
      = (\<lambda>r. row_id_of a r \<noteq> [] \<and> \<not> filtered_out (parse_ids (ids a)) (row_id_of a r) \<and>
              ssml_of a r \<noteq> [])"
    by (rule ext) (simp add: is_submitted_def)
  have skp: "is_skipped a (parse_ids (ids a))
      = (\<lambda>r. row_id_of a r = [] \<or>
              (\<not> filtered_out (parse_ids (ids a)) (row_id_of a r) \<and> ssml_of a r = []))"
    by (rule ext) (simp add: is_skipped_def)
  show ?thesis
    using main_requests [of env a w] main_completed(1) [of a env w]
    unfolding sub skp by simp
qed

text \<open>
  With the filter \<open>2\<close> and the single row (id 1, empty markup) the run completes and reports
  0 skipped rows: the row with empty markup is not counted.
\<close>

theorem filtered_out_empty_markup_is_not_counted:
  "ssml_of (ex_args\<lparr>format := Wav, ids := Some (ascii ''2'')\<rparr>) [(ascii ''id'', Some (ascii ''1'')), (ascii ''ssml'', Some [])] = [] \<and>
   fst (main (ex_args\<lparr>format := Wav, ids := Some (ascii ''2'')\<rparr>)
          (ex_env\<lparr>csv_rows := [[(ascii ''id'', Some (ascii ''1'')), (ascii ''ssml'', Some [])]]\<rparr>) ex_world) = Completed \<and>
   summaries (trace (snd (main (ex_args\<lparr>format := Wav, ids := Some (ascii ''2'')\<rparr>)
          (ex_env\<lparr>csv_rows := [[(ascii ''id'', Some (ascii ''1'')), (ascii ''ssml'', Some [])]]\<rparr>) ex_world))) = [(0, 0)]"
  by (simp add: eval_defs)


theorem empty_rows_not_submitted_and_counted_witness:
  "fst (main (ex_args\<lparr>format := Wav\<rparr>)
          (ex_env\<lparr>csv_rows := [[(ascii ''id'', Some (ascii ''  '')), (ascii ''ssml'', Some (ascii ''<speak>a</speak>''))],
                                 [(ascii ''id'', Some (ascii ''7'')), (ascii ''ssml'', Some [0xA0])],
                                 [(ascii ''id'', Some (ascii ''1'')), (ascii ''ssml'', Some (ascii ''<speak>one</speak>''))]]\<rparr>)
          ex_world) = Completed \<and>
   http_posts (trace (snd (main (ex_args\<lparr>format := Wav\<rparr>)
          (ex_env\<lparr>csv_rows := [[(ascii ''id'', Some (ascii ''  '')), (ascii ''ssml'', Some (ascii ''<speak>a</speak>''))],
                                 [(ascii ''id'', Some (ascii ''7'')), (ascii ''ssml'', Some [0xA0])],
                                 [(ascii ''id'', Some (ascii ''1'')), (ascii ''ssml'', Some (ascii ''<speak>one</speak>''))]]\<rparr>)
          ex_world)))
     = [(tts_url (ascii ''KEY''), tts_payload (ascii ''en-GB-Chirp3-HD-Leda'') (ascii ''en-GB'') (ascii ''<speak>one</speak>''))] \<and>
   map snd (summaries (trace (snd (main (ex_args\<lparr>format := Wav\<rparr>)
          (ex_env\<lparr>csv_rows := [[(ascii ''id'', Some (ascii ''  '')), (ascii ''ssml'', Some (ascii ''<speak>a</speak>''))],
                                 [(ascii ''id'', Some (ascii ''7'')), (ascii ''ssml'', Some [0xA0])],
                                 [(ascii ''id'', Some (ascii ''1'')), (ascii ''ssml'', Some (ascii ''<speak>one</speak>''))]]\<rparr>)
          ex_world)))) = [2]"
proof -
  let ?a = "ex_args\<lparr>format := Wav\<rparr>"
  let ?rows = "[[(ascii ''id'', Some (ascii ''  '')), (ascii ''ssml'', Some (ascii ''<speak>a</speak>''))],
                [(ascii ''id'', Some (ascii ''7'')), (ascii ''ssml'', Some [0xA0])],
                [(ascii ''id'', Some (ascii ''1'')), (ascii ''ssml'', Some (ascii ''<speak>one</speak>''))]]"
  let ?env = "ex_env\<lparr>csv_rows := ?rows\<rparr>"
  have c: "fst (main ?a ?env ex_world) = Completed"
    by (simp add: eval_defs)
  have w: "parse_ids (ids ?a) = None" "csv_rows ?env = ?rows" "trace ex_world = []"
    by (simp_all add: parse_ids_def ex_args_def ex_world_def)
  have r: "row_id_of ?a [(ascii ''id'', Some (ascii ''  '')), (ascii ''ssml'', Some (ascii ''<speak>a</speak>''))] = []"
    "row_id_of ?a [(ascii ''id'', Some (ascii ''7'')), (ascii ''ssml'', Some [0xA0])] = ascii ''7''"
    "row_id_of ?a [(ascii ''id'', Some (ascii ''1'')), (ascii ''ssml'', Some (ascii ''<speak>one</speak>''))] = ascii ''1''"
    "ssml_of ?a [(ascii ''id'', Some (ascii ''7'')), (ascii ''ssml'', Some [0xA0])] = []"
    "ssml_of ?a [(ascii ''id'', Some (ascii ''1'')), (ascii ''ssml'', Some (ascii ''<speak>one</speak>''))] = ascii ''<speak>one</speak>''"
    "tts_request ?a [(ascii ''id'', Some (ascii ''1'')), (ascii ''ssml'', Some (ascii ''<speak>one</speak>''))]
       = (tts_url (ascii ''KEY''), tts_payload (ascii ''en-GB-Chirp3-HD-Leda'') (ascii ''en-GB'') (ascii ''<speak>one</speak>''))"
    by (simp_all add: tts_request_def row_id_of_def ssml_of_def row_get_def py_strip_def
        py_isspace_def ex_args_def ascii_def)
  from empty_rows_not_submitted_and_counted [of ?env ?a ex_world] c
  obtain k where
    "http_posts (trace (snd (main ?a ?env ex_world)))
        = http_posts (trace ex_world) @
          map (tts_request ?a)
            (filter (\<lambda>r. row_id_of ?a r \<noteq> [] \<and> \<not> filtered_out (parse_ids (ids ?a)) (row_id_of ?a r) \<and>
                          ssml_of ?a r \<noteq> [])
               (take k (csv_rows ?env)))"
    and "k = length (csv_rows ?env)"
    and "map snd (summaries (trace (snd (main ?a ?env ex_world))))
        = map snd (summaries (trace ex_world)) @
          [length (filter (\<lambda>r. row_id_of ?a r = [] \<or>
                               (\<not> filtered_out (parse_ids (ids ?a)) (row_id_of ?a r) \<and> ssml_of ?a r = []))
                     (csv_rows ?env))]"
    by (elim exE conjE impE) simp_all
  then have "http_posts (trace (snd (main ?a ?env ex_world)))
        = [(tts_url (ascii ''KEY''), tts_payload (ascii ''en-GB-Chirp3-HD-Leda'') (ascii ''en-GB'') (ascii ''<speak>one</speak>''))]"
    and "map snd (summaries (trace (snd (main ?a ?env ex_world)))) = [2]"
    unfolding w by (simp_all add: r filtered_out_def)
  with c show ?thesis by simp
qed

lemma parse_ids_Some:
  assumes "parse_ids x = Some W"
  shows "finite W" and "[] \<notin> W"
  using assms
  by (auto simp: parse_ids_def Let_def split: option.splits if_splits)

text \<open>
  Claim C7. With an identifier filter \<open>W\<close>, the requests sent are exactly those of the rows, in
  file order up to the point the run got to, whose identifier is in \<open>W\<close> (and whose markup is
  not empty). When the run completes, the identifiers of \<open>W\<close> that are the identifier of no
  row are printed once, sorted, as not found; nothing is printed when there is none; and the
  generated count of the closing line is the number of rows whose identifier is in \<open>W\<close> and
  whose markup is not empty.
\<close>

theorem filter_restricts_rows_and_reports_missing:
  assumes "parse_ids (ids a) = Some W"
  shows "(\<exists>k. k \<le> length (csv_rows env) \<and>
            http_posts (trace (snd (main a env w)))
              = http_posts (trace w) @
                map (tts_request a)
                  (filter (\<lambda>r. row_id_of a r \<in> W \<and> ssml_of a r \<noteq> []) (take k (csv_rows env))) \<and>
            (fst (main a env w) = Completed \<longrightarrow> k = length (csv_rows env))) \<and>
         (fst (main a env w) = Completed \<longrightarrow>
            not_found_reports (trace (snd (main a env w)))
              = not_found_reports (trace w) @
                (if W \<subseteq> row_id_of a ` set (csv_rows env) then []
                 else [sorted_list_of_set (W - row_id_of a ` set (csv_rows env))])) \<and>
         (fst (main a env w) = Completed \<longrightarrow>
            map fst (summaries (trace (snd (main a env w))))
              = map fst (summaries (trace w)) @
                [length (filter (\<lambda>r. row_id_of a r \<in> W \<and> ssml_of a r \<noteq> []) (csv_rows env))])"
proof -
  note W = parse_ids_Some [OF assms]
  have sub: "is_submitted a (Some W) = (\<lambda>r. row_id_of a r \<in> W \<and> ssml_of a r \<noteq> [])"
    using W(2) by (auto simp: is_submitted_def filtered_out_def fun_eq_iff)
  have d: "W - (row_id_of a ` set (csv_rows env) - {[]}) = W - row_id_of a ` set (csv_rows env)"
    using W(2) by auto
  have fin: "finite (W - row_id_of a ` set (csv_rows env))"
    using W(1) by simp
  have e: "sorted_list_of_set (W - row_id_of a ` set (csv_rows env)) \<noteq> []
      \<longleftrightarrow> \<not> W \<subseteq> row_id_of a ` set (csv_rows env)"
    using fin by (simp add: sorted_list_of_set_eq_Nil_iff)
  show ?thesis
    using main_requests [of env a w] main_completed(2) [of a env w] main_completed(1) [of a env w]
    unfolding assms sub by (simp add: d e)
qed


theorem filter_restricts_rows_and_reports_missing_witness:
  "parse_ids (ids (ex_args\<lparr>format := Wav, ids := Some (ascii ''2,5'')\<rparr>)) = Some {ascii ''2'', ascii ''5''} \<and>
   map (row_id_of (ex_args\<lparr>format := Wav, ids := Some (ascii ''2,5'')\<rparr>)) (csv_rows ex_env)
     = [ascii ''1'', ascii ''2'', ascii ''3''] \<and>
   fst (main (ex_args\<lparr>format := Wav, ids := Some (ascii ''2,5'')\<rparr>) ex_env ex_world) = Completed \<and>
   http_posts (trace (snd (main (ex_args\<lparr>format := Wav, ids := Some (ascii ''2,5'')\<rparr>) ex_env ex_world)))
     = [(tts_url (ascii ''KEY''), tts_payload (ascii ''en-GB-Chirp3-HD-Leda'') (ascii ''en-GB'') (ascii ''<speak>two</speak>''))] \<and>
   not_found_reports (trace (snd (main (ex_args\<lparr>format := Wav, ids := Some (ascii ''2,5'')\<rparr>) ex_env ex_world)))
     = [[ascii ''5'']]"
proof -
  let ?a = "ex_args\<lparr>format := Wav, ids := Some (ascii ''2,5'')\<rparr>"
  have p: "parse_ids (ids ?a) = Some {ascii ''2'', ascii ''5''}"
    by (simp add: parse_ids_def py_split_def replace_commas_def py_strip_def py_isspace_def
        ex_args_def ascii_def)
  have c: "fst (main ?a ex_env ex_world) = Completed"
    by (simp add: eval_defs)
  have rows: "csv_rows ex_env = ex_rows" "trace ex_world = []"
    by (simp_all add: ex_env_def ex_world_def)
  have r: "row_id_of ?a [(ascii ''id'', Some (ascii ''1'')), (ascii ''ssml'', Some (ascii ''<speak>one</speak>''))] = ascii ''1''"
    "row_id_of ?a [(ascii ''id'', Some (ascii ''2'')), (ascii ''ssml'', Some (ascii ''<speak>two</speak>''))] = ascii ''2''"
    "row_id_of ?a [(ascii ''id'', Some (ascii ''3'')), (ascii ''ssml'', Some (ascii ''<speak>three</speak>''))] = ascii ''3''"
    "ssml_of ?a [(ascii ''id'', Some (ascii ''2'')), (ascii ''ssml'', Some (ascii ''<speak>two</speak>''))] = ascii ''<speak>two</speak>''"
    "tts_request ?a [(ascii ''id'', Some (ascii ''2'')), (ascii ''ssml'', Some (ascii ''<speak>two</speak>''))]
       = (tts_url (ascii ''KEY''), tts_payload (ascii ''en-GB-Chirp3-HD-Leda'') (ascii ''en-GB'') (ascii ''<speak>two</speak>''))"
    by (simp_all add: tts_request_def row_id_of_def ssml_of_def row_get_def py_strip_def
        py_isspace_def ex_args_def ascii_def)
  have ids: "map (row_id_of ?a) (csv_rows ex_env) = [ascii ''1'', ascii ''2'', ascii ''3'']"
    unfolding rows by (simp add: ex_rows_def r)
  have nf: "{ascii ''2'', ascii ''5''} - {ascii ''1'', ascii ''2'', ascii ''3''} = {ascii ''5''}"
    by auto
  from filter_restricts_rows_and_reports_missing [OF p, of ex_env ex_world] c
  obtain k where
    "http_posts (trace (snd (main ?a ex_env ex_world)))
        = http_posts (trace ex_world) @
          map (tts_request ?a)
            (filter (\<lambda>r. row_id_of ?a r \<in> {ascii ''2'', ascii ''5''} \<and> ssml_of ?a r \<noteq> [])
               (take k (csv_rows ex_env)))"
    and "k = length (csv_rows ex_env)"
    and "not_found_reports (trace (snd (main ?a ex_env ex_world)))
        = not_found_reports (trace ex_world) @
          (if {ascii ''2'', ascii ''5''} \<subseteq> row_id_of ?a ` set (csv_rows ex_env) then []
           else [sorted_list_of_set ({ascii ''2'', ascii ''5''} - row_id_of ?a ` set (csv_rows ex_env))])"
    by (elim exE conjE impE) simp_all
  then have "http_posts (trace (snd (main ?a ex_env ex_world)))
        = [(tts_url (ascii ''KEY''), tts_payload (ascii ''en-GB-Chirp3-HD-Leda'') (ascii ''en-GB'') (ascii ''<speak>two</speak>''))]"
    and "not_found_reports (trace (snd (main ?a ex_env ex_world))) = [[ascii ''5'']]"
    unfolding rows by (simp_all add: ex_rows_def r nf)
  with p c ids show ?thesis by simp
qed

subsection \<open>Parsing the identifier filter\<close>

lemma split_scan_token:
  "list_all (\<lambda>c. \<not> py_isspace c) t \<Longrightarrow> split_scan cur (t @ rest) = split_scan (rev t @ cur) rest"
  by (induction t arbitrary: cur) simp_all

lemma split_scan_spaces:
  "list_all py_isspace sp \<Longrightarrow> split_scan [] (sp @ rest) = split_scan [] rest"
  by (induction sp) simp_all

lemma split_scan_end_token:
  assumes "list_all py_isspace sp" and "sp \<noteq> []" and "cur \<noteq> []"
  shows "split_scan cur (sp @ rest) = rev cur # split_scan [] rest"
proof -
  from assms(2) obtain c cs where sp: "sp = c # cs" by (cases sp) auto
  with assms(1) have "py_isspace c" and "list_all py_isspace cs" by simp_all
  with assms(3) show ?thesis unfolding sp by (simp add: split_scan_spaces)
qed

lemma split_scan_trail:
  assumes "list_all py_isspace trail" and "cur \<noteq> []"
  shows "split_scan cur trail = [rev cur]"
proof (cases trail)
  case Nil
  with assms(2) show ?thesis by simp
next
  case (Cons c cs)
  with split_scan_end_token [OF assms(1) _ assms(2), of "[]"] show ?thesis
    by simp
qed

lemma split_scan_pairs:
  assumes "list_all (\<lambda>(sp, t). sp \<noteq> [] \<and> list_all py_isspace sp \<and>
                        t \<noteq> [] \<and> list_all (\<lambda>c. \<not> py_isspace c) t) pairs"
    and "list_all py_isspace trail" and "cur \<noteq> []"
  shows "split_scan cur (concat (map (\<lambda>(sp, t). sp @ t) pairs) @ trail) = rev cur # map snd pairs"
  using assms(1,3)
proof (induction pairs arbitrary: cur)
  case Nil
  with assms(2) show ?case by (simp add: split_scan_trail)
next
  case (Cons p pairs)
  obtain sp t where p: "p = (sp, t)" by (cases p)
  from Cons.prems(1) p have sp: "sp \<noteq> []" "list_all py_isspace sp"
    and t: "t \<noteq> []" "list_all (\<lambda>c. \<not> py_isspace c) t"
    and rest: "list_all (\<lambda>(sp, t). sp \<noteq> [] \<and> list_all py_isspace sp \<and>
                        t \<noteq> [] \<and> list_all (\<lambda>c. \<not> py_isspace c) t) pairs"
    by simp_all
  let ?rest = "concat (map (\<lambda>(sp, t). sp @ t) pairs) @ trail"
  have "split_scan cur (sp @ t @ ?rest) = rev cur # split_scan [] (t @ ?rest)"
    by (rule split_scan_end_token [OF sp(2) sp(1) Cons.prems(2)])
  also have "split_scan [] (t @ ?rest) = split_scan (rev t) ?rest"
    using t(2) by (simp add: split_scan_token)
  also have "\<dots> = rev (rev t) # map snd pairs"
    using rest t(1) by (intro Cons.IH) simp_all
  finally show ?case by (simp add: p)
qed

lemma replace_commas_seps:
  "list_all is_sep sp \<Longrightarrow> list_all py_isspace (replace_commas sp)"
  by (induction sp) (auto simp: replace_commas_def is_sep_def py_isspace_def)

lemma replace_commas_token:
  assumes "list_all (\<lambda>c. \<not> is_sep c) t"
  shows "replace_commas t = t" and "list_all (\<lambda>c. \<not> py_isspace c) t"
  using assms by (induction t) (auto simp: replace_commas_def is_sep_def)

lemma replace_commas_append:
  "replace_commas (xs @ ys) = replace_commas xs @ replace_commas ys"
  by (simp add: replace_commas_def)

lemma replace_commas_eq_Nil: "replace_commas xs = [] \<longleftrightarrow> xs = []"
  by (simp add: replace_commas_def)

lemma replace_commas_pairs:
  assumes "list_all (\<lambda>(sp, t). sp \<noteq> [] \<and> list_all is_sep sp \<and> is_token t) pairs"
  shows "replace_commas (concat (map (\<lambda>(sp, t). sp @ t) pairs))
           = concat (map (\<lambda>(sp, t). sp @ t) (map (\<lambda>(sp, t). (replace_commas sp, t)) pairs))"
    and "list_all (\<lambda>(sp, t). sp \<noteq> [] \<and> list_all py_isspace sp \<and>
                        t \<noteq> [] \<and> list_all (\<lambda>c. \<not> py_isspace c) t)
           (map (\<lambda>(sp, t). (replace_commas sp, t)) pairs)"
  using assms
proof (induction pairs)
  case Nil
  { case 1 show ?case by (simp add: replace_commas_def) }
  { case 2 show ?case by simp }
next
  case (Cons p pairs)
  { case 1
    obtain sp t where p: "p = (sp, t)" by (cases p)
    with 1 have "list_all (\<lambda>c. \<not> is_sep c) t"
      and "list_all (\<lambda>(sp, t). sp \<noteq> [] \<and> list_all is_sep sp \<and> is_token t) pairs"
      by (simp_all add: is_token_def)
    with Cons.IH(1) show ?case
      by (simp add: p replace_commas_append replace_commas_token(1)) }
  { case 2
    obtain sp t where p: "p = (sp, t)" by (cases p)
    with 2 have "sp \<noteq> []" "list_all is_sep sp" "t \<noteq> []" "list_all (\<lambda>c. \<not> is_sep c) t"
      and "list_all (\<lambda>(sp, t). sp \<noteq> [] \<and> list_all is_sep sp \<and> is_token t) pairs"
      by (simp_all add: is_token_def)
    with Cons.IH(2) show ?case
      by (simp add: p replace_commas_seps replace_commas_token(2) replace_commas_eq_Nil) }
qed

lemma py_strip_token:
  assumes "list_all (\<lambda>c. \<not> py_isspace c) t"
  shows "py_strip t = t"
proof -
  have "dropWhile py_isspace t = t"
    using assms by (cases t) simp_all
  moreover have "list_all (\<lambda>c. \<not> py_isspace c) (rev t)"
    using assms by (simp add: list_all_iff)
  then have "dropWhile py_isspace (rev t) = rev t"
    by (cases "rev t") simp_all
  ultimately show ?thesis by (simp add: py_strip_def)
qed

lemma py_split_seps:
  assumes "list_all is_sep s"
  shows "py_split (replace_commas s) = []"
  using split_scan_spaces [OF replace_commas_seps [OF assms], of "[]"]
  by (simp add: py_split_def)

lemma parse_ids_seps:
  assumes "list_all is_sep s"
  shows "parse_ids (Some s) = None"
  by (simp add: parse_ids_def py_split_seps [OF assms])

lemma py_split_tokens:
  assumes "list_all is_sep sp0" and "is_token t0"
    and "list_all (\<lambda>(sp, t). sp \<noteq> [] \<and> list_all is_sep sp \<and> is_token t) pairs"
    and "list_all is_sep trail"
  shows "py_split (replace_commas (sp0 @ t0 @ concat (map (\<lambda>(sp, t). sp @ t) pairs) @ trail))
           = t0 # map snd pairs"
proof -
  let ?pairs' = "map (\<lambda>(sp, t). (replace_commas sp, t)) pairs"
  let ?rest = "concat (map (\<lambda>(sp, t). sp @ t) ?pairs') @ replace_commas trail"
  from assms(2) have t0: "t0 \<noteq> []" "list_all (\<lambda>c. \<not> is_sep c) t0"
    by (simp_all add: is_token_def)
  have "replace_commas (sp0 @ t0 @ concat (map (\<lambda>(sp, t). sp @ t) pairs) @ trail)
      = replace_commas sp0 @ t0 @ ?rest"
    by (simp add: replace_commas_append replace_commas_token(1) [OF t0(2)]
        replace_commas_pairs(1) [OF assms(3)])
  moreover have "split_scan [] (replace_commas sp0 @ t0 @ ?rest) = split_scan [] (t0 @ ?rest)"
    by (rule split_scan_spaces [OF replace_commas_seps [OF assms(1)]])
  moreover have "split_scan [] (t0 @ ?rest) = split_scan (rev t0) ?rest"
    using replace_commas_token(2) [OF t0(2)] by (simp add: split_scan_token)
  moreover have "split_scan (rev t0) ?rest = rev (rev t0) # map snd ?pairs'"
    using replace_commas_pairs(2) [OF assms(3)] replace_commas_seps [OF assms(4)] t0(1)
    by (intro split_scan_pairs) simp_all
  moreover have "map snd ?pairs' = map snd pairs"
    by (induction pairs) auto
  ultimately show ?thesis by (simp add: py_split_def)
qed

lemma parse_ids_tokens:
  assumes "list_all is_sep sp0" and "is_token t0"
    and "list_all (\<lambda>(sp, t). sp \<noteq> [] \<and> list_all is_sep sp \<and> is_token t) pairs"
    and "list_all is_sep trail"
  shows "parse_ids (Some (sp0 @ t0 @ concat (map (\<lambda>(sp, t). sp @ t) pairs) @ trail))
           = Some (set (t0 # map snd pairs))"
proof -
  have tok: "\<forall>t \<in> set (t0 # map snd pairs). is_token t"
    using assms(2,3) by (auto simp: list_all_iff)
  have strip: "map py_strip (t0 # map snd pairs) = t0 # map snd pairs"
  proof (rule map_idI)
    fix t assume "t \<in> set (t0 # map snd pairs)"
    with tok have "list_all (\<lambda>c. \<not> is_sep c) t" by (auto simp: is_token_def)
    then show "py_strip t = t" by (intro py_strip_token replace_commas_token(2))
  qed
  have ne: "filter (\<lambda>p. p \<noteq> []) (t0 # map snd pairs) = t0 # map snd pairs"
    using tok by (intro filter_True) (auto simp: is_token_def)
  from assms(2) have "sp0 @ t0 @ concat (map (\<lambda>(sp, t). sp @ t) pairs) @ trail \<noteq> []"
    by (simp add: is_token_def)
  then show ?thesis
    unfolding parse_ids_def
    by (simp only: py_split_tokens [OF assms] strip ne Let_def option.case if_False list.distinct)
qed


text \<open>
  Claim C10. An \<open>--ids\<close> value made only of commas and whitespace (the empty string included)
  parses to "no filter", and a run given such a value submits every row that has an
  identifier and markup, as a run without \<open>--ids\<close> does. Any other value is a sequence of
  tokens separated by non-empty runs of commas and whitespace, possibly with such runs at
  both ends, and parses to the set of its tokens, duplicates collapsing.
\<close>

theorem ids_argument_parsing:
  "(list_all is_sep s \<longrightarrow> parse_ids (Some s) = None) \<and>
   (ids a = Some s \<and> list_all is_sep s \<longrightarrow>
      (\<exists>k. k \<le> length (csv_rows env) \<and>
         http_posts (trace (snd (main a env w)))
           = http_posts (trace w) @
             map (tts_request a)
               (filter (\<lambda>r. row_id_of a r \<noteq> [] \<and> ssml_of a r \<noteq> []) (take k (csv_rows env))) \<and>
         (fst (main a env w) = Completed \<longrightarrow> k = length (csv_rows env)))) \<and>
   (list_all is_sep sp0 \<and> is_token t0 \<and>
    list_all (\<lambda>(sp, t). sp \<noteq> [] \<and> list_all is_sep sp \<and> is_token t) pairs \<and>
    list_all is_sep trail \<longrightarrow>
      parse_ids (Some (sp0 @ t0 @ concat (map (\<lambda>(sp, t). sp @ t) pairs) @ trail))
        = Some (set (t0 # map snd pairs)))"
proof (intro conjI impI)
  assume "list_all is_sep s"
  then show "parse_ids (Some s) = None" by (rule parse_ids_seps)
next
  assume "ids a = Some s \<and> list_all is_sep s"
  then have none: "parse_ids (ids a) = None" by (simp add: parse_ids_seps)
  have sub: "is_submitted a None = (\<lambda>r. row_id_of a r \<noteq> [] \<and> ssml_of a r \<noteq> [])"
    by (rule ext) (simp add: is_submitted_def filtered_out_def)
  from main_requests [of env a w]
  show "\<exists>k. k \<le> length (csv_rows env) \<and>
         http_posts (trace (snd (main a env w)))
           = http_posts (trace w) @
             map (tts_request a)
               (filter (\<lambda>r. row_id_of a r \<noteq> [] \<and> ssml_of a r \<noteq> []) (take k (csv_rows env))) \<and>
         (fst (main a env w) = Completed \<longrightarrow> k = length (csv_rows env))"
    unfolding none sub .
next
  assume "list_all is_sep sp0 \<and> is_token t0 \<and>
    list_all (\<lambda>(sp, t). sp \<noteq> [] \<and> list_all is_sep sp \<and> is_token t) pairs \<and>
    list_all is_sep trail"
  then show "parse_ids (Some (sp0 @ t0 @ concat (map (\<lambda>(sp, t). sp @ t) pairs) @ trail))
        = Some (set (t0 # map snd pairs))"
    by (intro parse_ids_tokens) simp_all
qed

theorem ids_argument_parsing_witness:
  "list_all is_sep (ascii '', ,'') \<and> parse_ids (Some (ascii '', ,'')) = None \<and>
   fst (main (ex_args\<lparr>format := Wav, ids := Some (ascii '', ,'')\<rparr>) ex_env ex_world) = Completed \<and>
   http_posts (trace (snd (main (ex_args\<lparr>format := Wav, ids := Some (ascii '', ,'')\<rparr>) ex_env ex_world)))
     = [(tts_url (ascii ''KEY''), tts_payload (ascii ''en-GB-Chirp3-HD-Leda'') (ascii ''en-GB'') (ascii ''<speak>one</speak>'')),
        (tts_url (ascii ''KEY''), tts_payload (ascii ''en-GB-Chirp3-HD-Leda'') (ascii ''en-GB'') (ascii ''<speak>two</speak>'')),
        (tts_url (ascii ''KEY''), tts_payload (ascii ''en-GB-Chirp3-HD-Leda'') (ascii ''en-GB'') (ascii ''<speak>three</speak>''))] \<and>
   is_token (ascii ''1'') \<and> is_token (ascii ''2'') \<and> is_token (ascii ''3'') \<and>
   parse_ids (Some (ascii '' 1,2'' @ [0xA0] @ ascii ''2,, 3'' @ [0x3000]))
     = Some {ascii ''1'', ascii ''2'', ascii ''3''}"
proof -
  let ?a = "ex_args\<lparr>format := Wav, ids := Some (ascii '', ,'')\<rparr>"
  have sep: "list_all is_sep (ascii '', ,'')" "list_all is_sep (ascii '' '')" "list_all is_sep (ascii '','')"
    "list_all is_sep [0xA0]" "list_all is_sep (ascii '',, '')" "list_all is_sep [0x3000]"
    by (simp_all add: is_sep_def py_isspace_def ascii_def)
  have tok: "is_token (ascii ''1'')" "is_token (ascii ''2'')" "is_token (ascii ''3'')"
    by (simp_all add: is_token_def is_sep_def py_isspace_def ascii_def)
  have ids: "ids ?a = Some (ascii '', ,'')" by simp
  have c: "fst (main ?a ex_env ex_world) = Completed"
    by (simp add: eval_defs)
  have rows: "csv_rows ex_env = ex_rows" "trace ex_world = []"
    by (simp_all add: ex_env_def ex_world_def)
  have r: "row_id_of ?a [(ascii ''id'', Some (ascii ''1'')), (ascii ''ssml'', Some (ascii ''<speak>one</speak>''))] = ascii ''1''"
    "row_id_of ?a [(ascii ''id'', Some (ascii ''2'')), (ascii ''ssml'', Some (ascii ''<speak>two</speak>''))] = ascii ''2''"
    "row_id_of ?a [(ascii ''id'', Some (ascii ''3'')), (ascii ''ssml'', Some (ascii ''<speak>three</speak>''))] = ascii ''3''"
    "ssml_of ?a [(ascii ''id'', Some (ascii ''1'')), (ascii ''ssml'', Some (ascii ''<speak>one</speak>''))] = ascii ''<speak>one</speak>''"
    "ssml_of ?a [(ascii ''id'', Some (ascii ''2'')), (ascii ''ssml'', Some (ascii ''<speak>two</speak>''))] = ascii ''<speak>two</speak>''"
    "ssml_of ?a [(ascii ''id'', Some (ascii ''3'')), (ascii ''ssml'', Some (ascii ''<speak>three</speak>''))] = ascii ''<speak>three</speak>''"
    "tts_request ?a [(ascii ''id'', Some (ascii ''1'')), (ascii ''ssml'', Some (ascii ''<speak>one</speak>''))]
       = (tts_url (ascii ''KEY''), tts_payload (ascii ''en-GB-Chirp3-HD-Leda'') (ascii ''en-GB'') (ascii ''<speak>one</speak>''))"
    "tts_request ?a [(ascii ''id'', Some (ascii ''2'')), (ascii ''ssml'', Some (ascii ''<speak>two</speak>''))]
       = (tts_url (ascii ''KEY''), tts_payload (ascii ''en-GB-Chirp3-HD-Leda'') (ascii ''en-GB'') (ascii ''<speak>two</speak>''))"
    "tts_request ?a [(ascii ''id'', Some (ascii ''3'')), (ascii ''ssml'', Some (ascii ''<speak>three</speak>''))]
       = (tts_url (ascii ''KEY''), tts_payload (ascii ''en-GB-Chirp3-HD-Leda'') (ascii ''en-GB'') (ascii ''<speak>three</speak>''))"
    by (simp_all add: tts_request_def row_id_of_def ssml_of_def row_get_def py_strip_def
        py_isspace_def ex_args_def ascii_def)
  note inst = ids_argument_parsing [of "ascii '', ,''" ?a ex_env ex_world "ascii '' ''" "ascii ''1''"
      "[(ascii '','', ascii ''2''), ([0xA0], ascii ''2''), (ascii '',, '', ascii ''3'')]" "[0x3000]"]
  note i1 = inst [THEN conjunct1, THEN mp]
  note i2 = inst [THEN conjunct2, THEN conjunct1, THEN mp]
  note i3 = inst [THEN conjunct2, THEN conjunct2, THEN mp]
  have n: "parse_ids (Some (ascii '', ,'')) = None"
    by (rule i1 [OF sep(1)])
  from i2 [OF conjI [OF ids sep(1)]] obtain k where
    "http_posts (trace (snd (main ?a ex_env ex_world)))
        = http_posts (trace ex_world) @
          map (tts_request ?a)
            (filter (\<lambda>r. row_id_of ?a r \<noteq> [] \<and> ssml_of ?a r \<noteq> []) (take k (csv_rows ex_env)))"
    and "fst (main ?a ex_env ex_world) = Completed \<longrightarrow> k = length (csv_rows ex_env)"
    by (elim exE conjE)
  with c have posts: "http_posts (trace (snd (main ?a ex_env ex_world)))
     = [(tts_url (ascii ''KEY''), tts_payload (ascii ''en-GB-Chirp3-HD-Leda'') (ascii ''en-GB'') (ascii ''<speak>one</speak>'')),
        (tts_url (ascii ''KEY''), tts_payload (ascii ''en-GB-Chirp3-HD-Leda'') (ascii ''en-GB'') (ascii ''<speak>two</speak>'')),
        (tts_url (ascii ''KEY''), tts_payload (ascii ''en-GB-Chirp3-HD-Leda'') (ascii ''en-GB'') (ascii ''<speak>three</speak>''))]"
    unfolding rows by (simp add: ex_rows_def r)
  have h: "list_all is_sep (ascii '' '') \<and> is_token (ascii ''1'') \<and>
      list_all (\<lambda>(sp, t). sp \<noteq> [] \<and> list_all is_sep sp \<and> is_token t)
        [(ascii '','', ascii ''2''), ([0xA0], ascii ''2''), (ascii '',, '', ascii ''3'')] \<and>
      list_all is_sep [0x3000]"
    using sep tok by simp
  have "parse_ids (Some (ascii '' '' @ ascii ''1'' @
      concat (map (\<lambda>(sp, t). sp @ t) [(ascii '','', ascii ''2''), ([0xA0], ascii ''2''), (ascii '',, '', ascii ''3'')]) @ [0x3000]))
        = Some (set (ascii ''1'' # map snd [(ascii '','', ascii ''2''), ([0xA0], ascii ''2''), (ascii '',, '', ascii ''3'')]))"
    by (rule i3 [OF h])
  then have t: "parse_ids (Some (ascii '' 1,2'' @ [0xA0] @ ascii ''2,, 3'' @ [0x3000]))
      = Some {ascii ''1'', ascii ''2'', ascii ''3''}"
    by (simp add: ascii_def)
  from sep(1) n c posts tok t show ?thesis by simp
qed

end
